theory Spec2Isabelle
  imports Main "HOL-Library.Word" "HOL-Library.Char_ord" "HOL-Library.List_Lexorder"
    "HOL-Library.Multiset"
begin

unbundle bit_operations_syntax

section \<open>The entity model of package sbom\<close>

text \<open>
  Modelled from the spec: the declarations of the structs \<open>pkg\<close>, \<open>file\<close> (here
  \<open>fileE\<close>), \<open>relationship\<close>, \<open>bom\<close> and \<open>Spec\<close> and of the interface
  \<open>element\<close>, which stand beside \<open>implementation.go\<close> and are not at hand.  The
  fields are those \<open>implementation.go\<close> reads and writes, which are the attributes the
  spec gives the entities.  A Go \<open>map[string]string\<close> is an association list looked up
  with \<open>map_of\<close>.  Strings are byte strings, ordered as \<open>sort.Strings\<close> orders
  them: lexicographically by byte value.

  A relationship holds its target by value and, of its source, the identifier
  \<open>rel.Source.ID()\<close>: the source pointer closes a cycle (a package is the source of
  the relationships in its own list) and nothing but its identifier is ever read.  A
  target is a package or a file, never nil.  The \<open>ID\<close> method itself is a parameter
  of the functions that call it.
\<close>

datatype pkg = Pkg
    (pkg_FilesAnalyzed: bool)
    (pkg_Name: string)
    (pkg_Version: string)
    (pkg_Relationships: "relationship list")
    (pkg_LicenseDeclared: string)
    (pkg_LicenseConcluded: string)
    (pkg_Copyright: string)
    (pkg_Namespace: string)
    (pkg_Arch: string)
    (pkg_Checksums: "(string \<times> string) list")
and fileE = File
    (file_Name: string)
    (file_Checksums: "(string \<times> string) list")
    (file_Relationships: "relationship list")
and relationship = Relationship
    (rel_Source: string)
    (rel_Target: element)
    (rel_Type: string)
and element = EPkg pkg | EFile fileE

record Spec =
  spec_Path :: string
  spec_PackageName :: string
  spec_PackageVersion :: string
  spec_License :: string
  spec_Copyright :: string
  spec_Namespace :: string
  spec_Arch :: string
  spec_BuildEnvSBOM :: string   \<comment> \<open>the path \<open>spec.BuildEnvSBOM()\<close> returns\<close>
  spec_PackageSBOM :: string    \<comment> \<open>the path \<open>spec.PackageSBOM()\<close> returns\<close>

record bom =
  bom_Packages :: "pkg list"
  bom_Files :: "fileE list"

text \<open>
  Errors are values.  \<open>New\<close> is \<open>errors.New\<close>, \<open>Wrap msg e\<close> is
  \<open>fmt.Errorf("msg: %w", e)\<close>, and \<open>Lib\<close> is an error handed up by a library call.
\<close>

datatype cause = ErrSyntax | ErrRange | ErrNotExist | ErrIO | ErrJSON | ErrHash | ErrWalk

datatype error = New string | Lib cause | Wrap string error

text \<open>The sentinel \<open>spdx.NOASSERTION\<close> of the SPDX generator package.\<close>

definition NOASSERTION :: string where
  "NOASSERTION = ''NOASSERTION''"

section \<open>The package assembler\<close>

definition GenerateAPKPackage :: "Spec \<Rightarrow> error + pkg" where
  "GenerateAPKPackage spec =
     (if spec_PackageName spec = []
      then Inl (New ''unable to generate package, name not specified'')
      else Inr (Pkg False
                  (spec_PackageName spec)
                  (spec_PackageVersion spec)
                  []
                  (if spec_License spec \<noteq> [] then spec_License spec else NOASSERTION)
                  NOASSERTION
                  (spec_Copyright spec)
                  (spec_Namespace spec)
                  (spec_Arch spec)
                  []))"

section \<open>Library functions the generator calls\<close>

subsection \<open>SHA-1 and hexadecimal formatting\<close>

text \<open>
  \<open>crypto/sha1\<close>, as FIPS 180-4 defines it: the message is padded to a multiple of 64
  bytes and folded block by block into five 32-bit words; the digest is their 20 bytes.
\<close>

type_synonym byte = "8 word"
type_synonym u32 = "32 word"
type_synonym sha1_state = "u32 \<times> u32 \<times> u32 \<times> u32 \<times> u32"

definition rotl :: "nat \<Rightarrow> u32 \<Rightarrow> u32" where
  "rotl n w = push_bit n w OR drop_bit (32 - n) w"

definition be32 :: "byte list \<Rightarrow> u32" where
  "be32 bs = foldl (\<lambda>acc b. push_bit 8 acc OR ucast b) 0 bs"

fun block_words :: "byte list \<Rightarrow> u32 list" where
  "block_words (a # b # c # d # rest) = be32 [a, b, c, d] # block_words rest"
| "block_words _ = []"

fun extend :: "nat \<Rightarrow> u32 list \<Rightarrow> u32 list" where
  "extend 0 w = w"
| "extend (Suc n) w =
     extend n (w @ [rotl 1 (w ! (length w - 3) XOR w ! (length w - 8) XOR
                            w ! (length w - 14) XOR w ! (length w - 16))])"

definition sha1_f :: "nat \<Rightarrow> u32 \<Rightarrow> u32 \<Rightarrow> u32 \<Rightarrow> u32" where
  "sha1_f i b c d =
     (if i < 20 then (b AND c) OR (NOT b AND d)
      else if i < 40 then b XOR c XOR d
      else if i < 60 then (b AND c) OR (b AND d) OR (c AND d)
      else b XOR c XOR d)"

definition sha1_k :: "nat \<Rightarrow> u32" where
  "sha1_k i =
     (if i < 20 then 0x5A827999 else if i < 40 then 0x6ED9EBA1
      else if i < 60 then 0x8F1BBCDC else 0xCA62C1D6)"

fun rounds :: "nat \<Rightarrow> u32 list \<Rightarrow> sha1_state \<Rightarrow> sha1_state" where
  "rounds i [] s = s"
| "rounds i (w # ws) (a, b, c, d, e) =
     rounds (Suc i) ws (rotl 5 a + sha1_f i b c d + e + w + sha1_k i, a, rotl 30 b, c, d)"

definition block :: "sha1_state \<Rightarrow> byte list \<Rightarrow> sha1_state" where
  "block h bs =
     (case h of (h0, h1, h2, h3, h4) \<Rightarrow>
        (case rounds 0 (extend 64 (block_words bs)) h of (a, b, c, d, e) \<Rightarrow>
           (h0 + a, h1 + b, h2 + c, h3 + d, h4 + e)))"

function blocks :: "sha1_state \<Rightarrow> byte list \<Rightarrow> sha1_state" where
  "blocks h bs = (if length bs < 64 then h else blocks (block h (take 64 bs)) (drop 64 bs))"
  by pat_completeness auto
termination
  by (relation "measure (\<lambda>(h, bs). length bs)") auto

declare blocks.simps [simp del]

definition pad :: "byte list \<Rightarrow> byte list" where
  "pad m =
     m @ [0x80] @ replicate ((119 - length m mod 64) mod 64) 0 @
     map (\<lambda>i. ucast (drop_bit (8 * (7 - i)) (word_of_nat (8 * length m) :: 64 word))) [0..<8]"

definition bytes32 :: "u32 \<Rightarrow> byte list" where
  "bytes32 w = map (\<lambda>i. ucast (drop_bit (8 * (3 - i)) w)) [0..<4]"

definition sha1 :: "byte list \<Rightarrow> byte list" where
  "sha1 m =
     (case blocks (0x67452301, 0xEFCDAB89, 0x98BADCFE, 0x10325476, 0xC3D2E1F0) (pad m) of
        (a, b, c, d, e) \<Rightarrow> concat (map bytes32 [a, b, c, d, e]))"

text \<open>\<open>[]byte(s)\<close> of a string, and \<open>fmt.Sprintf("%x", bs)\<close> of a byte slice.\<close>

definition bytes_of :: "string \<Rightarrow> byte list" where
  "bytes_of s = map of_char s"

definition hexdigit :: "nat \<Rightarrow> char" where
  "hexdigit n = ''0123456789abcdef'' ! (n mod 16)"

definition hex :: "byte list \<Rightarrow> string" where
  "hex bs = concat (map (\<lambda>b. [hexdigit (unat b div 16), hexdigit (unat b mod 16)]) bs)"

subsection \<open>The SPDX document types\<close>

text \<open>
  The records of \<open>chainguard.dev/apko/pkg/sbom/generator/spdx\<close>, with the fields the
  generator sets and reads.
\<close>

record Checksum =
  cs_Algorithm :: string
  cs_Value :: string

record ExternalRef =
  er_Category :: string
  er_Locator :: string
  er_Type :: string

record PackageVerificationCode =
  vc_Value :: string
  vc_ExcludedFiles :: "string list"

record Package =
  sp_ID :: string
  sp_Name :: string
  sp_Version :: string
  sp_FilesAnalyzed :: bool
  sp_HasFiles :: "string list"
  sp_LicenseConcluded :: string
  sp_LicenseDeclared :: string
  sp_DownloadLocation :: string
  sp_LicenseInfoFromFiles :: "string list"
  sp_CopyrightText :: string
  sp_Checksums :: "Checksum list"
  sp_ExternalRefs :: "ExternalRef list"
  sp_VerificationCode :: "PackageVerificationCode option"

record SFile =
  sf_ID :: string
  sf_Name :: string
  sf_LicenseConcluded :: string
  sf_FileTypes :: "string list"
  sf_LicenseInfoInFile :: "string list"
  sf_Checksums :: "Checksum list"

record SRelationship =
  sr_Element :: string
  sr_Type :: string
  sr_Related :: string

record CreationInfo =
  ci_Created :: string
  ci_Creators :: "string list"
  ci_LicenseListVersion :: string

record Document =
  doc_ID :: string
  doc_Name :: string
  doc_Version :: string
  doc_CreationInfo :: CreationInfo
  doc_DataLicense :: string
  doc_Namespace :: string
  doc_DocumentDescribes :: "string list"
  doc_Files :: "SFile list"
  doc_Packages :: "Package list"
  doc_Relationships :: "SRelationship list"
  doc_ExternalDocumentRefs :: "string list"

subsection \<open>Package URLs and the other collaborators\<close>

record PackageURL =
  purl_Type :: string
  purl_Namespace :: string
  purl_Name :: string
  purl_Version :: string
  purl_Qualifiers :: "(string \<times> string) list"
  purl_Subpath :: string

definition TypeOCI :: string where
  "TypeOCI = ''oci''"

text \<open>
  What the generator takes from code that is not its own, as parameters: the \<open>ID\<close>
  method of the elements, the package-URL printer and parser, the JSON decoder and
  encoder of documents, the RFC 3339 rendering of a Unix time in UTC, and the version
  string of the tool.
\<close>

record lib =
  ID :: "element \<Rightarrow> string"
  purl_ToString :: "PackageURL \<Rightarrow> string"
  purl_FromString :: "string \<Rightarrow> PackageURL option"
  json_Unmarshal :: "string \<Rightarrow> Document option"
  json_Encode :: "Document \<Rightarrow> string"
  unix_RFC3339 :: "int \<Rightarrow> string"
  GitVersion :: string

section \<open>The document builder\<close>

text \<open>
  \<open>hash.Hash.Write\<close> never returns an error, so the branch of
  \<open>computeVerificationCode\<close> that returns the empty string is never taken.
\<close>

definition computeVerificationCode :: "string list \<Rightarrow> string" where
  "computeVerificationCode hashList = hex (sha1 (bytes_of (concat (sort hashList))))"

text \<open>The checksum map as a list sorted by algorithm name.\<close>

definition lookup :: "(string \<times> string) list \<Rightarrow> string \<Rightarrow> string" where
  "lookup m k = (case map_of m k of Some v \<Rightarrow> v | None \<Rightarrow> [])"

definition checksums :: "(string \<times> string) list \<Rightarrow> Checksum list" where
  "checksums m =
     map (\<lambda>algo. \<lparr>cs_Algorithm = algo, cs_Value = lookup m algo\<rparr>) (sort (remdups (map fst m)))"

text \<open>The first loop of \<open>addPackage\<close>: the file targets, their hashes, and the excluded.\<close>

definition fileTargets :: "relationship list \<Rightarrow> fileE list" where
  "fileTargets rels =
     List.map_filter (\<lambda>rel. case rel_Target rel of EFile f \<Rightarrow> Some f | EPkg _ \<Rightarrow> None) rels"

definition hashList :: "relationship list \<Rightarrow> string list" where
  "hashList rels = List.map_filter (\<lambda>f. map_of (file_Checksums f) ''SHA1'') (fileTargets rels)"

definition excluded :: "lib \<Rightarrow> relationship list \<Rightarrow> string list" where
  "excluded L rels =
     map (\<lambda>f. ID L (EFile f))
       (filter (\<lambda>f. map_of (file_Checksums f) ''SHA1'' = None) (fileTargets rels))"

definition spdxPkg :: "lib \<Rightarrow> pkg \<Rightarrow> Package" where
  "spdxPkg L p =
     (let verificationCode = computeVerificationCode (hashList (pkg_Relationships p)) in
      \<lparr>sp_ID = ID L (EPkg p),
       sp_Name = pkg_Name p,
       sp_Version = pkg_Version p,
       sp_FilesAnalyzed = (verificationCode \<noteq> []),
       sp_HasFiles = map (\<lambda>f. ID L (EFile f)) (fileTargets (pkg_Relationships p)),
       sp_LicenseConcluded = pkg_LicenseConcluded p,
       sp_LicenseDeclared = pkg_LicenseDeclared p,
       sp_DownloadLocation = NOASSERTION,
       sp_LicenseInfoFromFiles = [],
       sp_CopyrightText = pkg_Copyright p,
       sp_Checksums = checksums (pkg_Checksums p),
       sp_ExternalRefs =
         (if pkg_Namespace p \<noteq> []
          then [\<lparr>er_Category = ''PACKAGE_MANAGER'',
                 er_Locator = purl_ToString L
                   \<lparr>purl_Type = ''apk'', purl_Namespace = pkg_Namespace p,
                    purl_Name = pkg_Name p, purl_Version = pkg_Version p,
                    purl_Qualifiers =
                      (if pkg_Arch p \<noteq> [] then [(''arch'', pkg_Arch p)] else []),
                    purl_Subpath = []\<rparr>,
                 er_Type = ''purl''\<rparr>]
          else []),
       sp_VerificationCode =
         (if verificationCode \<noteq> []
          then Some \<lparr>vc_Value = verificationCode,
                     vc_ExcludedFiles = excluded L (pkg_Relationships p)\<rparr>
          else None)\<rparr>)"

definition spdxFile :: "lib \<Rightarrow> fileE \<Rightarrow> SFile" where
  "spdxFile L f =
     \<lparr>sf_ID = ID L (EFile f),
      sf_Name = file_Name f,
      sf_LicenseConcluded = NOASSERTION,
      sf_FileTypes = [],
      sf_LicenseInfoInFile = [],
      sf_Checksums = checksums (file_Checksums f)\<rparr>"

definition sbomHasRelationship :: "lib \<Rightarrow> Document \<Rightarrow> relationship \<Rightarrow> bool" where
  "sbomHasRelationship L spdxDoc bomRel =
     list_ex (\<lambda>spdxRel. sr_Element spdxRel = rel_Source bomRel \<and>
                         sr_Related spdxRel = ID L (rel_Target bomRel) \<and>
                         sr_Type spdxRel = rel_Type bomRel)
       (doc_Relationships spdxDoc)"

definition spdxRel :: "lib \<Rightarrow> relationship \<Rightarrow> SRelationship" where
  "spdxRel L rel =
     \<lparr>sr_Element = rel_Source rel, sr_Type = rel_Type rel, sr_Related = ID L (rel_Target rel)\<rparr>"

definition appendRel :: "lib \<Rightarrow> relationship \<Rightarrow> Document \<Rightarrow> Document" where
  "appendRel L rel doc = doc\<lparr>doc_Relationships := doc_Relationships doc @ [spdxRel L rel]\<rparr>"

text \<open>
  \<open>addPackage\<close> and \<open>addFile\<close> with their loops over the relationships.  The loop of
  \<open>addPackage\<close> appends a relationship record after lowering the target; the loop of
  \<open>addFile\<close> lowers the target and appends none.
\<close>

fun addPackage :: "lib \<Rightarrow> Document \<Rightarrow> pkg \<Rightarrow> Document"
  and addFile :: "lib \<Rightarrow> Document \<Rightarrow> fileE \<Rightarrow> Document"
  and addElement :: "lib \<Rightarrow> Document \<Rightarrow> element \<Rightarrow> Document"
  and addPackageRels :: "lib \<Rightarrow> Document \<Rightarrow> relationship list \<Rightarrow> Document"
  and addFileRels :: "lib \<Rightarrow> Document \<Rightarrow> relationship list \<Rightarrow> Document"
where
  "addPackage L doc (Pkg fa n v rels ld lc c ns a cs) =
     addPackageRels L
       (doc\<lparr>doc_Packages := doc_Packages doc @ [spdxPkg L (Pkg fa n v rels ld lc c ns a cs)]\<rparr>)
       rels"
| "addFile L doc (File n cs rels) =
     addFileRels L (doc\<lparr>doc_Files := doc_Files doc @ [spdxFile L (File n cs rels)]\<rparr>) rels"
| "addElement L doc (EFile v) = addFile L doc v"
| "addElement L doc (EPkg v) = addPackage L doc v"
| "addPackageRels L doc [] = doc"
| "addPackageRels L doc (Relationship s t ty # rels) =
     (if sbomHasRelationship L doc (Relationship s t ty) then addPackageRels L doc rels
      else addPackageRels L (appendRel L (Relationship s t ty) (addElement L doc t)) rels)"
| "addFileRels L doc [] = doc"
| "addFileRels L doc (Relationship s t ty # rels) =
     (if sbomHasRelationship L doc (Relationship s t ty) then addFileRels L doc rels
      else addFileRels L (addElement L doc t) rels)"

text \<open>
  What a run finds outside the program: the regular files by path, the environment, the
  clock (in seconds since the epoch), which paths \<open>os.Create\<close> can open, and whether
  the device fails a write after some number of bytes.
\<close>

record world =
  files :: "string \<rightharpoonup> string"
  environ :: "string \<rightharpoonup> string"
  now :: int
  creatable :: "string \<Rightarrow> bool"
  write_fault :: "nat option"

text \<open>\<open>strconv.ParseInt(s, 10, 64)\<close>: an optional sign, then decimal digits only.\<close>

fun parseDigits :: "nat \<Rightarrow> string \<Rightarrow> cause + nat" where
  "parseDigits n [] = Inr n"
| "parseDigits n (c # cs) =
     (let d = (of_char c :: nat) in
      if d < 48 \<or> 57 < d then Inl ErrSyntax
      else if 2 ^ 64 \<le> n * 10 + (d - 48) then Inl ErrRange
      else parseDigits (n * 10 + (d - 48)) cs)"

definition ParseUint :: "string \<Rightarrow> cause + nat" where
  "ParseUint s = (if s = [] then Inl ErrSyntax else parseDigits 0 s)"

definition ParseInt :: "string \<Rightarrow> cause + int" where
  "ParseInt s0 =
     (case s0 of
        [] \<Rightarrow> Inl ErrSyntax
      | c # cs \<Rightarrow>
          (let neg = (c = CHR ''-'');
               s = (if c = CHR ''+'' \<or> c = CHR ''-'' then cs else s0)
           in case ParseUint s of
                Inl e \<Rightarrow> Inl e
              | Inr un \<Rightarrow>
                  if \<not> neg \<and> 2 ^ 63 \<le> un then Inl ErrRange
                  else if neg \<and> 2 ^ 63 < un then Inl ErrRange
                  else Inr (if neg then - int un else int un)))"

definition sbomTime :: "lib \<Rightarrow> world \<Rightarrow> error + string" where
  "sbomTime L W =
     (case environ W ''SOURCE_DATE_EPOCH'' of
        None \<Rightarrow> Inr (unix_RFC3339 L (now W))
      | Some v \<Rightarrow>
          (case ParseInt v of
             Inl e \<Rightarrow> Inl (Wrap ''failed to parse SOURCE_DATE_EPOCH'' (Lib e))
           | Inr sec \<Rightarrow> Inr (unix_RFC3339 L sec)))"

definition newDocument :: "lib \<Rightarrow> Spec \<Rightarrow> string \<Rightarrow> Document" where
  "newDocument L spec created =
     \<lparr>doc_ID = ''SPDXRef-DOCUMENT-'' @
                ''apk-'' @ spec_PackageName spec @ ''-'' @ spec_PackageVersion spec,
      doc_Name = ''apk-'' @ spec_PackageName spec @ ''-'' @ spec_PackageVersion spec,
      doc_Version = ''SPDX-2.3'',
      doc_CreationInfo =
        \<lparr>ci_Created = created,
         ci_Creators = [''Tool: melange ('' @ GitVersion L @ '')'',
                        ''Organization: Chainguard, Inc''],
         ci_LicenseListVersion = ''3.18''\<rparr>,
      doc_DataLicense = ''CC0-1.0'',
      doc_Namespace = ''https://spdx.org/spdxdocs/chainguard/melange/'',
      doc_DocumentDescribes = [],
      doc_Files = [],
      doc_Packages = [],
      doc_Relationships = [],
      doc_ExternalDocumentRefs = []\<rparr>"

definition describePackage :: "lib \<Rightarrow> pkg \<Rightarrow> Document \<Rightarrow> Document" where
  "describePackage L p spdxDoc =
     addPackage L
       (spdxDoc\<lparr>doc_DocumentDescribes := doc_DocumentDescribes spdxDoc @ [ID L (EPkg p)]\<rparr>) p"

definition describeFile :: "lib \<Rightarrow> fileE \<Rightarrow> Document \<Rightarrow> Document" where
  "describeFile L f spdxDoc =
     addFile L
       (spdxDoc\<lparr>doc_DocumentDescribes := doc_DocumentDescribes spdxDoc @ [ID L (EFile f)]\<rparr>) f"

definition lowerBom :: "lib \<Rightarrow> bom \<Rightarrow> Document \<Rightarrow> Document" where
  "lowerBom L doc spdxDoc =
     fold (describeFile L) (bom_Files doc) (fold (describePackage L) (bom_Packages doc) spdxDoc)"

definition buildDocumentSPDX :: "lib \<Rightarrow> world \<Rightarrow> Spec \<Rightarrow> bom \<Rightarrow> error + Document" where
  "buildDocumentSPDX L W spec doc =
     (case sbomTime L W of
        Inl e \<Rightarrow> Inl e
      | Inr created \<Rightarrow> Inr (lowerBom L doc (newDocument L spec created)))"

section \<open>The build SBOM merger\<close>

text \<open>
  The inner loop of \<open>ParseBuildSBOM\<close> appends the package once for every external
  reference of type purl whose locator parses to a type other than OCI.
\<close>

definition keepsRef :: "lib \<Rightarrow> ExternalRef \<Rightarrow> bool" where
  "keepsRef L e =
     (er_Type e = ''purl'' \<and>
      (case purl_FromString L (er_Locator e) of
         None \<Rightarrow> False
       | Some pl \<Rightarrow> purl_Type pl \<noteq> TypeOCI))"

definition buildPackages :: "lib \<Rightarrow> Document \<Rightarrow> Package list" where
  "buildPackages L buildSBOM =
     concat (map (\<lambda>p. concat (map (\<lambda>e. if keepsRef L e then [p] else []) (sp_ExternalRefs p)))
               (doc_Packages buildSBOM))"

definition ParseBuildSBOM :: "lib \<Rightarrow> world \<Rightarrow> Spec \<Rightarrow> Document \<Rightarrow> error + Document" where
  "ParseBuildSBOM L W spec apkSBOM =
     (case files W (spec_BuildEnvSBOM spec) of
        None \<Rightarrow> Inl (Wrap (''opening build environment SBOM from '' @ spec_BuildEnvSBOM spec)
                       (Lib ErrNotExist))
      | Some data \<Rightarrow>
          (case json_Unmarshal L data of
             None \<Rightarrow> Inl (Wrap ''unmarshaling build time SBOM'' (Lib ErrJSON))
           | Some buildSBOM \<Rightarrow>
               (case doc_DocumentDescribes apkSBOM of
                  [] \<Rightarrow> Inl (New ''apk package sbom has no root elements'')
                | rootId # _ \<Rightarrow>
                    (let ret = buildPackages L buildSBOM in
                     Inr (apkSBOM
                           \<lparr>doc_Packages := doc_Packages apkSBOM @ ret,
                            doc_Relationships := doc_Relationships apkSBOM @
                              map (\<lambda>p. \<lparr>sr_Element = sp_ID p,
                                         sr_Type = ''BUILD_DEPENDENCY_OF'',
                                         sr_Related = rootId\<rparr>) ret\<rparr>)))))"

section \<open>The writer\<close>

text \<open>
  \<open>os.Create\<close> makes the file, empty, or truncates the one there; the encoder then
  writes the document into it.  A write the device fails leaves what it took.
\<close>

definition WriteSBOM :: "lib \<Rightarrow> world \<Rightarrow> Spec \<Rightarrow> bom \<Rightarrow> error option \<times> world" where
  "WriteSBOM L W spec doc =
     (case buildDocumentSPDX L W spec doc of
        Inl e \<Rightarrow> (Some (Wrap ''building SPDX document'' e), W)
      | Inr built \<Rightarrow>
          (case ParseBuildSBOM L W spec built of
             Inl e \<Rightarrow> (Some (Wrap ''parsing build environment SBOM'' e), W)
           | Inr spdxDoc \<Rightarrow>
               if \<not> creatable W (spec_PackageSBOM spec)
               then (Some (Wrap ''opening SBOM file for writing'' (Lib ErrIO)), W)
               else
                 (case write_fault W of
                    None \<Rightarrow>
                      (None, W\<lparr>files := (files W)(spec_PackageSBOM spec \<mapsto> json_Encode L spdxDoc)\<rparr>)
                  | Some n \<Rightarrow>
                      (Some (Wrap ''encoding spdx sbom'' (Lib ErrIO)),
                       W\<lparr>files := (files W)(spec_PackageSBOM spec \<mapsto>
                                     take n (json_Encode L spdxDoc))\<rparr>))))"

section \<open>The file scanner\<close>

text \<open>
  \<open>fs.WalkDir\<close> calls the function it is given once per entry of the tree, in its own
  order, and stops at the first call that returns an error.  A visit is one such call:
  the path, whether the entry is a directory, whether its type is a symbolic link, and
  whether the walk passes an error.
\<close>

record visit =
  v_path :: string
  v_IsDir :: bool
  v_Symlink :: bool
  v_err :: bool

definition rooted :: "string \<Rightarrow> string" where
  "rooted path = (if path = ''.'' then ''/'' else ''/'' @ path)"

fun walkFn :: "string list \<Rightarrow> visit list \<Rightarrow> error + string list" where
  "walkFn fileList [] = Inr fileList"
| "walkFn fileList (v # vs) =
     (if v_err v then Inl (Lib ErrWalk)
      else if v_IsDir v then walkFn fileList vs
      else if v_Symlink v then walkFn fileList vs
      else walkFn (fileList @ [rooted (v_path v)]) vs)"

definition getDirectoryTree :: "visit list \<Rightarrow> error + string list" where
  "getDirectoryTree visits =
     (case walkFn [] visits of
        Inl e \<Rightarrow> Inl (Wrap ''buiding directory tree'' e)
      | Inr fileList \<Rightarrow> Inr (sort fileList))"

text \<open>
  What a scan finds outside the program: the absolute path of a directory, the visits of
  a walk from it, the digest of a file by algorithm and path (\<open>None\<close> when hashing
  fails), the order in which the concurrent units of work come to store their result,
  and whether closing the limiter fails.
\<close>

record scanner =
  Abs :: "string \<Rightarrow> string option"
  WalkDir :: "string \<Rightarrow> visit list"
  hashForFile :: "string \<Rightarrow> string \<Rightarrow> string option"
  completion :: "string list \<Rightarrow> string list"
  closeFails :: bool

definition algos :: "string list" where
  "algos = [''SHA1'', ''SHA256'', ''SHA512'']"

text \<open>
  \<open>filepath.Join\<close> of the absolute directory and a rooted path of the tree; both are
  clean, so joining is appending unless one of them is the root.
\<close>

definition joinPath :: "string \<Rightarrow> string \<Rightarrow> string" where
  "joinPath dirPath path =
     (if path = ''/'' then dirPath else if dirPath = ''/'' then path else dirPath @ path)"

text \<open>One unit of work: the file of a path, and whether a digest failed.\<close>

definition scanFile :: "scanner \<Rightarrow> string \<Rightarrow> string \<Rightarrow> fileE" where
  "scanFile S dirPath path =
     File path
       (map (\<lambda>algo. (algo, case hashForFile S algo (joinPath dirPath path) of
                              Some csum \<Rightarrow> csum | None \<Rightarrow> [])) algos)
       []"

definition hashFails :: "scanner \<Rightarrow> string \<Rightarrow> string \<Rightarrow> bool" where
  "hashFails S dirPath path = list_ex (\<lambda>algo. hashForFile S algo (joinPath dirPath path) = None) algos"

text \<open>
  The keyed store is an association list: \<open>Store\<close> puts a binding in front, \<open>Load\<close>
  finds the latest, \<open>Range\<close> meets every key once.
\<close>

definition storeAll :: "scanner \<Rightarrow> string \<Rightarrow> string list \<Rightarrow> (string \<times> fileE) list" where
  "storeAll S dirPath fileList =
     fold (\<lambda>path store. (path, scanFile S dirPath path) # store) (completion S fileList) []"

definition rangeKeys :: "(string \<times> fileE) list \<Rightarrow> string list" where
  "rangeKeys store = remdups (map fst store)"

fun with_FilesAnalyzed :: "bool \<Rightarrow> pkg \<Rightarrow> pkg" where
  "with_FilesAnalyzed b (Pkg fa n v rels ld lc c ns a cs) = Pkg b n v rels ld lc c ns a cs"

fun append_Relationships :: "relationship list \<Rightarrow> pkg \<Rightarrow> pkg" where
  "append_Relationships new (Pkg fa n v rels ld lc c ns a cs) =
     Pkg fa n v (rels @ new) ld lc c ns a cs"

definition containsRels :: "string \<Rightarrow> (string \<times> fileE) list \<Rightarrow> string list \<Rightarrow> relationship list" where
  "containsRels source store pathList =
     List.map_filter
       (\<lambda>path. case map_of store path of
                  None \<Rightarrow> None
                | Some f \<Rightarrow> Some (Relationship source (EFile f) ''CONTAINS''))
       pathList"

text \<open>
  \<open>ScanFiles\<close> changes the package it is given through a pointer, also when it fails:
  it returns the package as the call leaves it, beside the error.  The source of the new
  relationships is that package; its identifier is read off it once the flag is set.
\<close>

definition ScanFiles :: "lib \<Rightarrow> scanner \<Rightarrow> Spec \<Rightarrow> pkg \<Rightarrow> error option \<times> pkg" where
  "ScanFiles L S spec dirPackage =
     (case Abs S (spec_Path spec) of
        None \<Rightarrow> (Some (Wrap ''getting absolute directory path'' (Lib ErrIO)), dirPackage)
      | Some dirPath \<Rightarrow>
          (case getDirectoryTree (WalkDir S dirPath) of
             Inl e \<Rightarrow> (Some (Wrap ''building directory tree'' e), dirPackage)
           | Inr fileList \<Rightarrow>
               (let analyzed = with_FilesAnalyzed True dirPackage;
                    store = storeAll S dirPath fileList
                in if closeFails S
                   then (Some (Wrap ''waiting for limiter to finish'' (Lib ErrIO)), analyzed)
                   else if list_ex (hashFails S dirPath) fileList
                   then (Some (Wrap ''hashing'' (Lib ErrHash)), analyzed)
                   else (None,
                         append_Relationships
                           (containsRels (ID L (EPkg analyzed)) store (sort (rangeKeys store)))
                           analyzed))))"

section \<open>Notions used in the statements\<close>

text \<open>A document grown only by appending package, file and relationship records.\<close>

definition extends :: "Document \<Rightarrow> Document \<Rightarrow> bool" where
  "extends d d' \<longleftrightarrow>
     (\<exists>ps fs rs. d' = d\<lparr>doc_Packages := doc_Packages d @ ps, doc_Files := doc_Files d @ fs,
                         doc_Relationships := doc_Relationships d @ rs\<rparr>)"

text \<open>The document with every field at its zero value, as \<open>spdx.Document{}\<close>.\<close>

definition emptyDocument :: Document where
  "emptyDocument =
     \<lparr>doc_ID = [], doc_Name = [], doc_Version = [],
      doc_CreationInfo = \<lparr>ci_Created = [], ci_Creators = [], ci_LicenseListVersion = []\<rparr>,
      doc_DataLicense = [], doc_Namespace = [], doc_DocumentDescribes = [], doc_Files = [],
      doc_Packages = [], doc_Relationships = [], doc_ExternalDocumentRefs = []\<rparr>"

text \<open>
  An instance of the parameters, to run the functions on concrete entities: identifiers
  made of a prefix and the name, package URLs read up to the type, a decoder that reads
  the empty JSON object (as the zero document) and refuses any other text, an encoder
  that writes the identifier of the document, and the clock's rendering.
\<close>

definition exampleID :: "element \<Rightarrow> string" where
  "exampleID e =
     (case e of EPkg p \<Rightarrow> ''SPDXRef-Package-'' @ pkg_Name p
              | EFile f \<Rightarrow> ''SPDXRef-File-'' @ file_Name f)"

definition exampleFromString :: "string \<Rightarrow> PackageURL option" where
  "exampleFromString s =
     (if take 4 s = ''pkg:'' \<and> CHR ''/'' \<in> set (drop 4 s)
      then Some \<lparr>purl_Type = takeWhile (\<lambda>c. c \<noteq> CHR ''/'') (drop 4 s),
                 purl_Namespace = [],
                 purl_Name = tl (dropWhile (\<lambda>c. c \<noteq> CHR ''/'') (drop 4 s)),
                 purl_Version = [], purl_Qualifiers = [], purl_Subpath = []\<rparr>
      else None)"

text \<open>
  The RFC 3339 rendering of a time in UTC, for the years 1970 to 9999: the day count is
  turned into a civil date by the usual era arithmetic.
\<close>

definition pad2 :: "int \<Rightarrow> string" where
  "pad2 n = [hexdigit (nat (n div 10 mod 10)), hexdigit (nat (n mod 10))]"

definition exampleRFC3339 :: "int \<Rightarrow> string" where
  "exampleRFC3339 sec =
     (let z = sec div 86400 + 719468; t = sec mod 86400;
          era = z div 146097; doe = z mod 146097;
          yoe = (doe - doe div 1460 + doe div 36524 - doe div 146096) div 365;
          doy = doe - (365 * yoe + yoe div 4 - yoe div 100);
          mp = (5 * doy + 2) div 153;
          d = doy - (153 * mp + 2) div 5 + 1;
          m = (if mp < 10 then mp + 3 else mp - 9);
          y = yoe + era * 400 + (if m \<le> 2 then 1 else 0)
      in pad2 (y div 100) @ pad2 (y mod 100) @ ''-'' @ pad2 m @ ''-'' @ pad2 d @ ''T'' @
         pad2 (t div 3600) @ '':'' @ pad2 (t mod 3600 div 60) @ '':'' @ pad2 (t mod 60) @ ''Z'')"

definition exampleLib :: lib where
  "exampleLib =
     \<lparr>ID = exampleID,
      purl_ToString = (\<lambda>u. ''pkg:'' @ purl_Type u @ ''/'' @ purl_Namespace u @ ''/'' @
                             purl_Name u @ ''@'' @ purl_Version u),
      purl_FromString = exampleFromString,
      json_Unmarshal = (\<lambda>data. if data = ''{}'' then Some emptyDocument else None),
      json_Encode = (\<lambda>d. doc_ID d),
      unix_RFC3339 = exampleRFC3339,
      GitVersion = ''v0.0.0''\<rparr>"

text \<open>A package named as given, with the given relationships and nothing else.\<close>

definition examplePkg :: "string \<Rightarrow> relationship list \<Rightarrow> pkg" where
  "examplePkg name rels = Pkg False name ''1.0'' rels NOASSERTION NOASSERTION [] [] [] []"

definition exampleSpec :: Spec where
  "exampleSpec =
     \<lparr>spec_Path = ''/work'', spec_PackageName = ''hello'', spec_PackageVersion = ''1.0-r0'',
      spec_License = ''MIT'', spec_Copyright = [], spec_Namespace = ''wolfi'',
      spec_Arch = ''x86_64'', spec_BuildEnvSBOM = ''/work/build.spdx.json'',
      spec_PackageSBOM = ''/work/hello.spdx.json''\<rparr>"

text \<open>An upstream package record with the given identifier and external references.\<close>

definition upstream :: "string \<Rightarrow> ExternalRef list \<Rightarrow> Package" where
  "upstream ident refs =
     \<lparr>sp_ID = ident, sp_Name = ident, sp_Version = ''1'', sp_FilesAnalyzed = False,
      sp_HasFiles = [], sp_LicenseConcluded = NOASSERTION, sp_LicenseDeclared = NOASSERTION,
      sp_DownloadLocation = NOASSERTION, sp_LicenseInfoFromFiles = [], sp_CopyrightText = [],
      sp_Checksums = [], sp_ExternalRefs = refs, sp_VerificationCode = None\<rparr>"

definition purlRef :: "string \<Rightarrow> ExternalRef" where
  "purlRef locator = \<lparr>er_Category = ''PACKAGE_MANAGER'', er_Locator = locator, er_Type = ''purl''\<rparr>"

text \<open>
  A world with a build environment SBOM on disk and no \<open>SOURCE_DATE_EPOCH\<close>, and a
  decoder that reads that file as the given document.
\<close>

definition exampleWorld :: world where
  "exampleWorld =
     \<lparr>files = [''/work/build.spdx.json'' \<mapsto> ''{}''],
      environ = Map.empty,
      now = 0,
      creatable = (\<lambda>path. True),
      write_fault = None\<rparr>"

definition decoding :: "Document \<Rightarrow> lib" where
  "decoding buildSBOM = exampleLib\<lparr>json_Unmarshal := (\<lambda>data. Some buildSBOM)\<rparr>"

text \<open>A decimal numeral: an optional sign and then one digit or more, nothing else.\<close>

definition isDigit :: "char \<Rightarrow> bool" where
  "isDigit c = (48 \<le> (of_char c :: nat) \<and> (of_char c :: nat) \<le> 57)"

definition isDecimal :: "string \<Rightarrow> bool" where
  "isDecimal s =
     (case s of
        [] \<Rightarrow> False
      | c # cs \<Rightarrow> if c = CHR ''+'' \<or> c = CHR ''-'' then cs \<noteq> [] \<and> list_all isDigit cs
                 else list_all isDigit s)"

text \<open>The example world with \<open>SOURCE_DATE_EPOCH\<close> set to the given text.\<close>

definition worldWithEpoch :: "string \<Rightarrow> world" where
  "worldWithEpoch v = exampleWorld\<lparr>environ := [''SOURCE_DATE_EPOCH'' \<mapsto> v]\<rparr>"

text \<open>A bill of materials with one package, named hello, and the given relationships.\<close>

definition exampleBom :: "relationship list \<Rightarrow> bom" where
  "exampleBom rels = \<lparr>bom_Packages = [examplePkg ''hello'' rels], bom_Files = []\<rparr>"

text \<open>The example world on a device that fails every write at once.\<close>

definition brokenDisk :: world where
  "brokenDisk = exampleWorld\<lparr>write_fault := Some 0\<rparr>"

text \<open>
  The example world on a device that fails a write after the given number of bytes, and
  the example world without the build environment SBOM.
\<close>

definition faultyDisk :: "nat \<Rightarrow> world" where
  "faultyDisk n = exampleWorld\<lparr>write_fault := Some n\<rparr>"

definition noBuildSBOM :: world where
  "noBuildSBOM = exampleWorld\<lparr>files := Map.empty\<rparr>"

text \<open>
  A scan of a tree with two regular files, a directory and a symbolic link; the digests
  are stand-ins, and the unit of the last path is the first to finish.
\<close>

definition exampleVisits :: "visit list" where
  "exampleVisits =
     [\<lparr>v_path = ''.'', v_IsDir = True, v_Symlink = False, v_err = False\<rparr>,
      \<lparr>v_path = ''bin'', v_IsDir = True, v_Symlink = False, v_err = False\<rparr>,
      \<lparr>v_path = ''bin/sh'', v_IsDir = False, v_Symlink = True, v_err = False\<rparr>,
      \<lparr>v_path = ''bin/hello'', v_IsDir = False, v_Symlink = False, v_err = False\<rparr>,
      \<lparr>v_path = ''README'', v_IsDir = False, v_Symlink = False, v_err = False\<rparr>]"

definition exampleScanner :: scanner where
  "exampleScanner =
     \<lparr>Abs = (\<lambda>path. Some path),
      WalkDir = (\<lambda>dirPath. exampleVisits),
      hashForFile = (\<lambda>algo path. Some (algo @ '':'' @ path)),
      completion = rev,
      closeFails = False\<rparr>"

section \<open>Notions for the invariants of the lowered document\<close>

text \<open>The first two steps of \<open>WriteSBOM\<close>: build the document, then merge into it.\<close>

definition buildAndMerge :: "lib \<Rightarrow> world \<Rightarrow> Spec \<Rightarrow> bom \<Rightarrow> error + Document" where
  "buildAndMerge L W spec doc =
     (case buildDocumentSPDX L W spec doc of
        Inl e \<Rightarrow> Inl e
      | Inr built \<Rightarrow> ParseBuildSBOM L W spec built)"

text \<open>
  The identifiers of the package and file records of a document, and a document free of
  dangling references: both ends of every relationship record, and every described root,
  are among them.
\<close>

definition recordIDs :: "Document \<Rightarrow> string list" where
  "recordIDs d = map sp_ID (doc_Packages d) @ map sf_ID (doc_Files d)"

definition relsClosed :: "Document \<Rightarrow> bool" where
  "relsClosed d =
     list_all (\<lambda>r. sr_Element r \<in> set (recordIDs d) \<and> sr_Related r \<in> set (recordIDs d))
       (doc_Relationships d)"

definition noDangling :: "Document \<Rightarrow> bool" where
  "noDangling d =
     (relsClosed d \<and> list_all (\<lambda>i. i \<in> set (recordIDs d)) (doc_DocumentDescribes d))"

text \<open>
  An element whose packages, at every depth, are named as the source by each relationship
  they hold.  The relationships a file holds are lowered to no record, so their sources
  are free.
\<close>

fun ownsSources :: "lib \<Rightarrow> element \<Rightarrow> bool"
  and sourcesAre :: "lib \<Rightarrow> string option \<Rightarrow> relationship list \<Rightarrow> bool"
where
  "ownsSources L (EPkg (Pkg fa n v rels ld lc c ns a cs)) =
     sourcesAre L (Some (ID L (EPkg (Pkg fa n v rels ld lc c ns a cs)))) rels"
| "ownsSources L (EFile (File n cs rels)) = sourcesAre L None rels"
| "sourcesAre L owner [] = True"
| "sourcesAre L owner (Relationship s t ty # rels) =
     ((case owner of Some i \<Rightarrow> s = i | None \<Rightarrow> True) \<and> ownsSources L t \<and>
      sourcesAre L owner rels)"

text \<open>
  The relationship records that lowering an element can emit: those of the relationships
  held by the packages in it.  An element is free of recurrence when no relationship of a
  package in it has its own record among those of its target.
\<close>

fun heldBy :: "lib \<Rightarrow> element \<Rightarrow> SRelationship list"
  and heldIn :: "lib \<Rightarrow> bool \<Rightarrow> relationship list \<Rightarrow> SRelationship list"
where
  "heldBy L (EPkg (Pkg fa n v rels ld lc c ns a cs)) = heldIn L True rels"
| "heldBy L (EFile (File n cs rels)) = heldIn L False rels"
| "heldIn L emits [] = []"
| "heldIn L emits (Relationship s t ty # rels) =
     heldBy L t @ (if emits then [spdxRel L (Relationship s t ty)] else []) @ heldIn L emits rels"

fun noRecurrence :: "lib \<Rightarrow> element \<Rightarrow> bool"
  and noRecurrenceIn :: "lib \<Rightarrow> bool \<Rightarrow> relationship list \<Rightarrow> bool"
where
  "noRecurrence L (EPkg (Pkg fa n v rels ld lc c ns a cs)) = noRecurrenceIn L True rels"
| "noRecurrence L (EFile (File n cs rels)) = noRecurrenceIn L False rels"
| "noRecurrenceIn L emits [] = True"
| "noRecurrenceIn L emits (Relationship s t ty # rels) =
     (\<not> (emits \<and> spdxRel L (Relationship s t ty) \<in> set (heldBy L t)) \<and>
      noRecurrence L t \<and> noRecurrenceIn L emits rels)"

text \<open>
  A relationship of the package hello to a file, as \<open>ScanFiles\<close> makes them; and one
  that names as its source a package that is nowhere in the bill of materials.
\<close>

definition containsFile :: "string \<Rightarrow> relationship" where
  "containsFile path =
     Relationship ''SPDXRef-Package-hello'' (EFile (File path [(''SHA1'', ''0a'')] [])) ''CONTAINS''"

definition strayRelationship :: relationship where
  "strayRelationship =
     Relationship ''SPDXRef-Package-ghost'' (EFile (File ''/f'' [] [])) ''CONTAINS''"

text \<open>A build environment SBOM with one package, of one package URL.\<close>

definition exampleBuildSBOM :: Document where
  "exampleBuildSBOM =
     emptyDocument\<lparr>doc_Packages :=
       [upstream ''SPDXRef-Package-busybox'' [purlRef ''pkg:apk/wolfi/busybox'']]\<rparr>"

text \<open>The triples (source id, kind, target id) of the relationship records of a document.\<close>

definition triples :: "Document \<Rightarrow> (string \<times> string \<times> string) list" where
  "triples d = map (\<lambda>r. (sr_Element r, sr_Type r, sr_Related r)) (doc_Relationships d)"

text \<open>A relationship of the package hello to a package of the same name.\<close>

definition containsHello :: "relationship list \<Rightarrow> relationship" where
  "containsHello rels =
     Relationship ''SPDXRef-Package-hello'' (EPkg (examplePkg ''hello'' rels)) ''CONTAINS''"

section \<open>Properties of the package assembler\<close>

text \<open>
  Claim C10.  \<open>GenerateAPKPackage\<close> fails exactly when the package name of the spec is
  empty.  The package it builds otherwise has no relationships, its concluded license is
  the no-assertion sentinel whatever license the spec names, and its declared license is
  the spec's license when that is not empty and the sentinel when it is.
\<close>

theorem GenerateAPKPackage_result:
  "((\<exists>e. GenerateAPKPackage spec = Inl e) \<longleftrightarrow> spec_PackageName spec = []) \<and>
   (\<forall>p. GenerateAPKPackage spec = Inr p \<longrightarrow>
        pkg_Relationships p = [] \<and>
        pkg_LicenseConcluded p = NOASSERTION \<and>
        pkg_LicenseDeclared p =
          (if spec_License spec = [] then NOASSERTION else spec_License spec))"
  by (auto simp add: GenerateAPKPackage_def)

theorem GenerateAPKPackage_result_witness:
  "GenerateAPKPackage
     \<lparr>spec_Path = ''/work'', spec_PackageName = ''hello'', spec_PackageVersion = ''1.0-r0'',
      spec_License = ''MIT'', spec_Copyright = [], spec_Namespace = ''wolfi'',
      spec_Arch = ''x86_64'', spec_BuildEnvSBOM = ''/work/build.spdx.json'',
      spec_PackageSBOM = ''/work/hello.spdx.json''\<rparr>
   = Inr (Pkg False ''hello'' ''1.0-r0'' [] ''MIT'' ''NOASSERTION'' [] ''wolfi'' ''x86_64'' []) \<and>
   pkg_LicenseConcluded
     (Pkg False ''hello'' ''1.0-r0'' [] ''MIT'' ''NOASSERTION'' [] ''wolfi'' ''x86_64'' [])
   = NOASSERTION"
proof -
  let ?spec = "\<lparr>spec_Path = ''/work'', spec_PackageName = ''hello'',
      spec_PackageVersion = ''1.0-r0'', spec_License = ''MIT'', spec_Copyright = [],
      spec_Namespace = ''wolfi'', spec_Arch = ''x86_64'',
      spec_BuildEnvSBOM = ''/work/build.spdx.json'',
      spec_PackageSBOM = ''/work/hello.spdx.json''\<rparr>"
  let ?p = "Pkg False ''hello'' ''1.0-r0'' [] ''MIT'' ''NOASSERTION'' [] ''wolfi'' ''x86_64'' []"
  have run: "GenerateAPKPackage ?spec = Inr ?p"
    by (simp add: GenerateAPKPackage_def NOASSERTION_def)
  from GenerateAPKPackage_result [of ?spec] run
  have "pkg_LicenseConcluded ?p = NOASSERTION" by blast
  with run show ?thesis by simp
qed

section \<open>Lowering only appends\<close>

lemma extends_refl: "extends d d"
  unfolding extends_def by (rule exI[of _ "[]"], rule exI[of _ "[]"], rule exI[of _ "[]"]) simp

lemma extends_trans: "extends a b \<Longrightarrow> extends b c \<Longrightarrow> extends a c"
  unfolding extends_def by (elim exE) (simp, blast)

lemma extends_pkg: "extends d (d\<lparr>doc_Packages := doc_Packages d @ ps\<rparr>)"
  unfolding extends_def by (rule exI[of _ ps], rule exI[of _ "[]"], rule exI[of _ "[]"]) simp

lemma extends_file: "extends d (d\<lparr>doc_Files := doc_Files d @ fs\<rparr>)"
  unfolding extends_def by (rule exI[of _ "[]"], rule exI[of _ fs], rule exI[of _ "[]"]) simp

lemma extends_rel: "extends d (d\<lparr>doc_Relationships := doc_Relationships d @ rs\<rparr>)"
  unfolding extends_def by (rule exI[of _ "[]"], rule exI[of _ "[]"], rule exI[of _ rs]) simp

lemma extends_appendRel: "extends d (appendRel L r d)"
  unfolding appendRel_def by (rule extends_rel)

lemma extends_Packages: "extends d d' \<Longrightarrow> \<exists>ps. doc_Packages d' = doc_Packages d @ ps"
  unfolding extends_def by auto

lemma extends_Files: "extends d d' \<Longrightarrow> \<exists>fs. doc_Files d' = doc_Files d @ fs"
  unfolding extends_def by auto

lemma extends_Relationships:
  "extends d d' \<Longrightarrow> \<exists>rs. doc_Relationships d' = doc_Relationships d @ rs"
  unfolding extends_def by auto

lemma extends_Describes: "extends d d' \<Longrightarrow> doc_DocumentDescribes d' = doc_DocumentDescribes d"
  unfolding extends_def by auto

lemma add_extends:
  "extends doc (addPackage L doc p)"
  "extends doc (addFile L doc f)"
  "extends doc (addElement L doc e)"
  "extends doc (addPackageRels L doc rels)"
  "extends doc (addFileRels L doc rels)"
proof (induction L doc p and L doc f and L doc e and L doc rels and L doc rels
       rule: addPackage_addFile_addElement_addPackageRels_addFileRels.induct)
  case (1 L doc fa n v rels ld lc c ns a cs)
  then show ?case by (auto intro: extends_trans extends_pkg)
next
  case (2 L doc n cs rels)
  then show ?case by (auto intro: extends_trans extends_file)
next
  case (6 L doc s t ty rels)
  then show ?case
    by (cases "sbomHasRelationship L doc (Relationship s t ty)")
       (simp_all, meson extends_trans extends_appendRel)
next
  case (8 L doc s t ty rels)
  then show ?case by (auto intro: extends_trans)
qed (simp_all add: extends_refl)

lemma addPackage_unfold:
  "addPackage L doc p =
     addPackageRels L (doc\<lparr>doc_Packages := doc_Packages doc @ [spdxPkg L p]\<rparr>) (pkg_Relationships p)"
  by (cases p) simp

lemma addFile_unfold:
  "addFile L doc f =
     addFileRels L (doc\<lparr>doc_Files := doc_Files doc @ [spdxFile L f]\<rparr>) (file_Relationships f)"
  by (cases f) simp

lemma addPackage_record:
  "doc_Packages (addPackage L doc p) ! length (doc_Packages doc) = spdxPkg L p"
proof -
  let ?d = "doc\<lparr>doc_Packages := doc_Packages doc @ [spdxPkg L p]\<rparr>"
  obtain ps where "doc_Packages (addPackageRels L ?d (pkg_Relationships p)) = doc_Packages ?d @ ps"
    using extends_Packages [OF add_extends(4)] by blast
  then show ?thesis by (simp add: addPackage_unfold nth_append)
qed

section \<open>The verification code\<close>

lemma length_sha1: "length (sha1 m) = 20"
  by (simp add: sha1_def bytes32_def split: prod.splits)

lemma length_hex: "length (hex bs) = 2 * length bs"
  by (induction bs) (simp_all add: hex_def)

lemma length_computeVerificationCode: "length (computeVerificationCode hs) = 40"
  by (simp add: computeVerificationCode_def length_hex length_sha1)

lemma computeVerificationCode_nonempty: "computeVerificationCode hs \<noteq> []"
  using length_computeVerificationCode [of hs] by auto

lemma spdxPkg_VerificationCode:
  "sp_VerificationCode (spdxPkg L p) =
     Some \<lparr>vc_Value = computeVerificationCode (hashList (pkg_Relationships p)),
           vc_ExcludedFiles = excluded L (pkg_Relationships p)\<rparr>"
  by (simp add: spdxPkg_def Let_def computeVerificationCode_nonempty)

lemma set_fileTargets: "set (fileTargets rels) = {f. \<exists>r\<in>set rels. rel_Target r = EFile f}"
  unfolding fileTargets_def
  by (induction rels) (auto split: element.splits)

lemma set_hashList:
  "set (hashList rels) =
     {h. \<exists>f\<in>set (fileTargets rels). map_of (file_Checksums f) ''SHA1'' = Some h}"
proof -
  have "set (List.map_filter g xs) = {h. \<exists>f\<in>set xs. g f = Some h}"
    for g :: "fileE \<Rightarrow> string option" and xs
    by (induction xs) (auto split: option.splits)
  then show ?thesis by (simp add: hashList_def)
qed

lemma set_excluded:
  "set (excluded L rels) =
     {ID L (EFile f) | f. f \<in> set (fileTargets rels) \<and> map_of (file_Checksums f) ''SHA1'' = None}"
  by (auto simp: excluded_def)

lemma length_hashList_excluded:
  "length (hashList rels) + length (excluded L rels) = length (fileTargets rels)"
proof -
  have "length (List.map_filter g xs) + length (filter (\<lambda>x. g x = None) xs) = length xs"
    for g :: "fileE \<Rightarrow> string option" and xs
    by (induction xs) (auto split: option.splits)
  then show ?thesis by (simp add: hashList_def excluded_def)
qed

text \<open>
  Claim C1, as amended.  The record \<open>addPackage\<close> emits for a package always carries a
  verification code: the hash of the sorted SHA-1 digests of the file targets that have
  one, which is the hash of the empty string when none has.  Every file target without
  a SHA-1 digest is named in the excluded files of that code, every other one gives its
  digest to the hashed list, and no target does both.
\<close>

theorem addPackage_verification_code:
  "doc_Packages (addPackage L doc p) ! length (doc_Packages doc) = spdxPkg L p \<and>
   sp_VerificationCode (spdxPkg L p) =
     Some \<lparr>vc_Value = computeVerificationCode (hashList (pkg_Relationships p)),
           vc_ExcludedFiles = excluded L (pkg_Relationships p)\<rparr> \<and>
   (\<forall>f\<in>set (fileTargets (pkg_Relationships p)).
      case map_of (file_Checksums f) ''SHA1'' of
        None \<Rightarrow> ID L (EFile f) \<in> set (excluded L (pkg_Relationships p))
      | Some h \<Rightarrow> h \<in> set (hashList (pkg_Relationships p))) \<and>
   set (hashList (pkg_Relationships p)) =
     {h. \<exists>f\<in>set (fileTargets (pkg_Relationships p)).
            map_of (file_Checksums f) ''SHA1'' = Some h} \<and>
   length (hashList (pkg_Relationships p)) + length (excluded L (pkg_Relationships p)) =
     length (fileTargets (pkg_Relationships p))"
proof -
  have "case map_of (file_Checksums f) ''SHA1'' of
          None \<Rightarrow> ID L (EFile f) \<in> set (excluded L (pkg_Relationships p))
        | Some h \<Rightarrow> h \<in> set (hashList (pkg_Relationships p))"
    if "f \<in> set (fileTargets (pkg_Relationships p))" for f
    using that by (auto simp: set_hashList set_excluded split: option.splits)
  then show ?thesis
    by (simp add: addPackage_record spdxPkg_VerificationCode set_hashList
          length_hashList_excluded)
qed

text \<open>
  A package holding one file with a SHA-1 digest and one without: the second is
  excluded, the first is hashed.
\<close>

theorem addPackage_verification_code_witness:
  "fileTargets [Relationship ''SPDXRef-Package-a'' (EFile (File ''/x'' [(''SHA1'', ''aa'')] [])) ''CONTAINS'',
                Relationship ''SPDXRef-Package-a'' (EFile (File ''/y'' [(''SHA256'', ''bb'')] [])) ''CONTAINS'']
     = [File ''/x'' [(''SHA1'', ''aa'')] [], File ''/y'' [(''SHA256'', ''bb'')] []] \<and>
   ''SPDXRef-File-/y'' \<in> set (excluded exampleLib
       [Relationship ''SPDXRef-Package-a'' (EFile (File ''/x'' [(''SHA1'', ''aa'')] [])) ''CONTAINS'',
        Relationship ''SPDXRef-Package-a'' (EFile (File ''/y'' [(''SHA256'', ''bb'')] [])) ''CONTAINS'']) \<and>
   ''aa'' \<in> set (hashList
       [Relationship ''SPDXRef-Package-a'' (EFile (File ''/x'' [(''SHA1'', ''aa'')] [])) ''CONTAINS'',
        Relationship ''SPDXRef-Package-a'' (EFile (File ''/y'' [(''SHA256'', ''bb'')] [])) ''CONTAINS''])"
proof -
  let ?x = "File ''/x'' [(''SHA1'', ''aa'')] []"
  let ?y = "File ''/y'' [(''SHA256'', ''bb'')] []"
  let ?rels = "[Relationship ''SPDXRef-Package-a'' (EFile ?x) ''CONTAINS'',
                Relationship ''SPDXRef-Package-a'' (EFile ?y) ''CONTAINS'']"
  have targets: "fileTargets ?rels = [?x, ?y]"
    by (simp add: fileTargets_def)
  have rels: "pkg_Relationships (examplePkg ''a'' ?rels) = ?rels"
    by (simp add: examplePkg_def)
  from addPackage_verification_code [of exampleLib emptyDocument "examplePkg ''a'' ?rels"]
  have "\<forall>f\<in>set (fileTargets (pkg_Relationships (examplePkg ''a'' ?rels))).
          case map_of (file_Checksums f) ''SHA1'' of
            None \<Rightarrow> ID exampleLib (EFile f) \<in>
                     set (excluded exampleLib (pkg_Relationships (examplePkg ''a'' ?rels)))
          | Some h \<Rightarrow> h \<in> set (hashList (pkg_Relationships (examplePkg ''a'' ?rels)))"
    by blast
  with targets show ?thesis
    unfolding rels
    by (simp add: exampleLib_def exampleID_def)
qed

text \<open>
  The claim as first stated fails: a package with no file target at all is lowered to a
  record that carries a verification code.
\<close>

theorem addPackage_verification_code_counterexample:
  "fileTargets (pkg_Relationships (examplePkg ''empty'' [])) = [] \<and>
   sp_VerificationCode
     (doc_Packages (addPackage exampleLib emptyDocument (examplePkg ''empty'' [])) ! 0) \<noteq> None"
  by (simp add: examplePkg_def fileTargets_def emptyDocument_def spdxPkg_def Let_def
        computeVerificationCode_nonempty)

section \<open>Stability of the verification code\<close>

lemma sort_cong_mset:
  fixes xs ys :: "string list"
  assumes "mset xs = mset ys"
  shows "sort xs = sort ys"
  by (rule properties_for_sort) (simp_all add: assms)

lemma mset_map_filter_cong:
  "mset xs = mset ys \<Longrightarrow> mset (List.map_filter g xs) = mset (List.map_filter g ys)"
proof -
  have "mset (List.map_filter g zs) = image_mset (the \<circ> g) (filter_mset (\<lambda>x. g x \<noteq> None) (mset zs))"
    for zs by (simp add: map_filter_def)
  then show "mset xs = mset ys \<Longrightarrow> ?thesis" by simp
qed

lemma mset_hashList_cong:
  "mset rels = mset rels' \<Longrightarrow> mset (hashList rels) = mset (hashList rels')"
  unfolding hashList_def fileTargets_def by (intro mset_map_filter_cong)

text \<open>
  Claim C2.  The verification code is the SHA-1 digest, in hex, of the concatenation of
  the given digests in sorted order, so two lists with the same digests in any order
  have the same code; and two packages whose relationships differ only in their order
  are lowered to records with the same code.
\<close>

theorem computeVerificationCode_sorted:
  "computeVerificationCode hs = hex (sha1 (bytes_of (concat (sort hs)))) \<and>
   sorted (sort hs) \<and> mset (sort hs) = mset hs \<and>
   (\<forall>hs'. mset hs' = mset hs \<longrightarrow> computeVerificationCode hs' = computeVerificationCode hs) \<and>
   (\<forall>L p q. mset (pkg_Relationships q) = mset (pkg_Relationships p) \<longrightarrow>
      map_option vc_Value (sp_VerificationCode (spdxPkg L q)) =
      map_option vc_Value (sp_VerificationCode (spdxPkg L p)))"
proof -
  have perm: "computeVerificationCode hs' = computeVerificationCode hs"
    if "mset hs' = mset hs" for hs' hs
    using sort_cong_mset [OF that] by (simp add: computeVerificationCode_def)
  have pkgs: "map_option vc_Value (sp_VerificationCode (spdxPkg L q)) =
        map_option vc_Value (sp_VerificationCode (spdxPkg L p))"
    if "mset (pkg_Relationships q) = mset (pkg_Relationships p)" for L p q
    using perm [OF mset_hashList_cong [OF that]] by (simp add: spdxPkg_VerificationCode)
  have "computeVerificationCode hs = hex (sha1 (bytes_of (concat (sort hs))))"
    by (simp add: computeVerificationCode_def)
  moreover have "sorted (sort hs)" and "mset (sort hs) = mset hs" by simp_all
  ultimately show ?thesis using perm pkgs by blast
qed

theorem computeVerificationCode_sorted_witness:
  "mset [''b1'', ''a0''] = mset [''a0'', ''b1''] \<and>
   computeVerificationCode [''b1'', ''a0''] = computeVerificationCode [''a0'', ''b1'']"
proof -
  have m: "mset [''b1'', ''a0''] = mset [''a0'', ''b1'']" by simp
  from computeVerificationCode_sorted [of "[''a0'', ''b1'']"]
  have "\<forall>hs'. mset hs' = mset [''a0'', ''b1''] \<longrightarrow>
          computeVerificationCode hs' = computeVerificationCode [''a0'', ''b1'']"
    by blast
  with m show ?thesis by blast
qed

section \<open>The merger\<close>

lemma buildPackages_replicate:
  "buildPackages L b =
     concat (map (\<lambda>p. replicate (length (filter (keepsRef L) (sp_ExternalRefs p))) p)
               (doc_Packages b))"
proof -
  have "concat (map (\<lambda>e. if keepsRef L e then [p] else []) es) =
        replicate (length (filter (keepsRef L) es)) p" for p :: Package and es
    by (induction es) simp_all
  then show ?thesis by (simp add: buildPackages_def)
qed

lemma keepsRef_iff:
  "keepsRef L e \<longleftrightarrow>
     er_Type e = ''purl'' \<and>
     (\<exists>pl. purl_FromString L (er_Locator e) = Some pl \<and> purl_Type pl \<noteq> TypeOCI)"
  by (auto simp: keepsRef_def split: option.splits)

text \<open>
  Claim C4.  \<open>ParseBuildSBOM\<close> fails exactly when the build environment SBOM cannot be
  read, or does not decode, or the package document describes no root.  Package URLs play
  no part in that: a package is spliced once for each of its references of type purl
  whose locator parses to a type other than OCI, so a reference whose locator does not
  parse adds nothing and stops nothing.
\<close>

theorem ParseBuildSBOM_fails_iff:
  "((\<exists>e. ParseBuildSBOM L W spec apkSBOM = Inl e) \<longleftrightarrow>
      doc_DocumentDescribes apkSBOM = [] \<or>
      files W (spec_BuildEnvSBOM spec) = None \<or>
      (\<exists>data. files W (spec_BuildEnvSBOM spec) = Some data \<and> json_Unmarshal L data = None)) \<and>
   buildPackages L buildSBOM =
     concat (map (\<lambda>p. replicate
                    (length (filter (\<lambda>e. er_Type e = ''purl'' \<and>
                                (\<exists>pl. purl_FromString L (er_Locator e) = Some pl \<and>
                                      purl_Type pl \<noteq> TypeOCI))
                              (sp_ExternalRefs p))) p)
               (doc_Packages buildSBOM))"
proof -
  have "keepsRef L = (\<lambda>e. er_Type e = ''purl'' \<and>
          (\<exists>pl. purl_FromString L (er_Locator e) = Some pl \<and> purl_Type pl \<noteq> TypeOCI))"
    by (rule ext) (rule keepsRef_iff)
  then have "buildPackages L buildSBOM =
     concat (map (\<lambda>p. replicate
                    (length (filter (\<lambda>e. er_Type e = ''purl'' \<and>
                                (\<exists>pl. purl_FromString L (er_Locator e) = Some pl \<and>
                                      purl_Type pl \<noteq> TypeOCI))
                              (sp_ExternalRefs p))) p)
               (doc_Packages buildSBOM))"
    using buildPackages_replicate [of L buildSBOM] by simp
  moreover have "(\<exists>e. ParseBuildSBOM L W spec apkSBOM = Inl e) \<longleftrightarrow>
      doc_DocumentDescribes apkSBOM = [] \<or>
      files W (spec_BuildEnvSBOM spec) = None \<or>
      (\<exists>data. files W (spec_BuildEnvSBOM spec) = Some data \<and> json_Unmarshal L data = None)"
    by (auto simp: ParseBuildSBOM_def Let_def split: option.splits list.splits)
  ultimately show ?thesis by blast
qed

text \<open>A package document without a described root is refused.\<close>

theorem ParseBuildSBOM_fails_iff_witness:
  "doc_DocumentDescribes emptyDocument = [] \<and>
   (\<exists>e. ParseBuildSBOM exampleLib exampleWorld exampleSpec emptyDocument = Inl e)"
proof -
  have "doc_DocumentDescribes emptyDocument = []" by (simp add: emptyDocument_def)
  with ParseBuildSBOM_fails_iff [of exampleLib exampleWorld exampleSpec emptyDocument]
  show ?thesis by blast
qed

text \<open>
  Claim C3 fails on the code.  An upstream package with two package URLs, neither of the
  OCI type, is spliced twice, and the merged document gets the same relationship record
  twice: the inner loop of \<open>ParseBuildSBOM\<close> goes on after it has appended the package.
\<close>

theorem ParseBuildSBOM_splices_twice:
  "buildPackages exampleLib
     (emptyDocument\<lparr>doc_Packages :=
        [upstream ''SPDXRef-Package-busybox''
           [purlRef ''pkg:apk/wolfi/busybox'', purlRef ''pkg:generic/busybox'']]\<rparr>)
   = [upstream ''SPDXRef-Package-busybox''
        [purlRef ''pkg:apk/wolfi/busybox'', purlRef ''pkg:generic/busybox''],
      upstream ''SPDXRef-Package-busybox''
        [purlRef ''pkg:apk/wolfi/busybox'', purlRef ''pkg:generic/busybox'']] \<and>
   map_sum id doc_Relationships
     (ParseBuildSBOM
        (decoding (emptyDocument\<lparr>doc_Packages :=
           [upstream ''SPDXRef-Package-busybox''
              [purlRef ''pkg:apk/wolfi/busybox'', purlRef ''pkg:generic/busybox'']]\<rparr>))
        exampleWorld exampleSpec
        (emptyDocument\<lparr>doc_DocumentDescribes := [''SPDXRef-Package-hello'']\<rparr>))
   = Inr [\<lparr>sr_Element = ''SPDXRef-Package-busybox'', sr_Type = ''BUILD_DEPENDENCY_OF'',
           sr_Related = ''SPDXRef-Package-hello''\<rparr>,
          \<lparr>sr_Element = ''SPDXRef-Package-busybox'', sr_Type = ''BUILD_DEPENDENCY_OF'',
           sr_Related = ''SPDXRef-Package-hello''\<rparr>]"
  by (simp add: buildPackages_def keepsRef_def exampleLib_def exampleFromString_def
        emptyDocument_def upstream_def purlRef_def TypeOCI_def ParseBuildSBOM_def
        decoding_def exampleWorld_def exampleSpec_def)

section \<open>The timestamp and the writer\<close>

lemma parseDigits_digits: "parseDigits n s = Inr m \<Longrightarrow> list_all isDigit s"
proof (induction s arbitrary: n)
  case Nil
  then show ?case by simp
next
  case (Cons c cs)
  let ?d = "of_char c :: nat"
  from Cons.prems have d: "isDigit c"
    by (auto simp: Let_def isDigit_def split: if_splits)
  from Cons.prems have "parseDigits (n * 10 + (?d - 48)) cs = Inr m"
    by (auto simp: Let_def split: if_splits)
  then have "list_all isDigit cs" by (rule Cons.IH)
  with d show ?case by simp
qed

lemma ParseUint_digits: "ParseUint s = Inr m \<Longrightarrow> s \<noteq> [] \<and> list_all isDigit s"
  by (auto simp: ParseUint_def split: if_splits dest: parseDigits_digits)

lemma ParseInt_isDecimal:
  assumes "ParseInt v = Inr sec"
  shows "isDecimal v"
proof (cases v)
  case Nil
  with assms show ?thesis by (simp add: ParseInt_def)
next
  case (Cons c cs)
  show ?thesis
  proof (cases "c = CHR ''+'' \<or> c = CHR ''-''")
    case True
    with assms Cons obtain un where "ParseUint cs = Inr un"
      by (auto simp: ParseInt_def Let_def split: sum.splits)
    from ParseUint_digits [OF this] True Cons show ?thesis
      by (simp add: isDecimal_def)
  next
    case False
    with assms Cons obtain un where "ParseUint v = Inr un"
      by (auto simp: ParseInt_def Let_def split: sum.splits)
    from ParseUint_digits [OF this] False Cons show ?thesis
      by (simp add: isDecimal_def)
  qed
qed

lemma ParseInt_refuses: "\<not> isDecimal v \<Longrightarrow> \<exists>c. ParseInt v = Inl c"
  using ParseInt_isDecimal [of v] by (cases "ParseInt v") auto

lemma extends_CreationInfo: "extends d d' \<Longrightarrow> doc_CreationInfo d' = doc_CreationInfo d"
  unfolding extends_def by auto

lemma describePackage_CreationInfo:
  "doc_CreationInfo (describePackage L p d) = doc_CreationInfo d"
  unfolding describePackage_def using extends_CreationInfo [OF add_extends(1)] by simp

lemma describeFile_CreationInfo:
  "doc_CreationInfo (describeFile L f d) = doc_CreationInfo d"
  unfolding describeFile_def using extends_CreationInfo [OF add_extends(2)] by simp

lemma lowerBom_CreationInfo: "doc_CreationInfo (lowerBom L doc d) = doc_CreationInfo d"
proof -
  have "doc_CreationInfo (fold (describePackage L) ps d) = doc_CreationInfo d" for ps d
    by (induction ps arbitrary: d) (simp_all add: describePackage_CreationInfo)
  moreover have "doc_CreationInfo (fold (describeFile L) fs d) = doc_CreationInfo d" for fs d
    by (induction fs arbitrary: d) (simp_all add: describeFile_CreationInfo)
  ultimately show ?thesis by (simp add: lowerBom_def)
qed

lemma buildDocumentSPDX_Created:
  "buildDocumentSPDX L W spec doc = Inr d \<Longrightarrow> sbomTime L W = Inr (ci_Created (doc_CreationInfo d))"
  by (auto simp: buildDocumentSPDX_def lowerBom_CreationInfo newDocument_def split: sum.splits)

text \<open>
  Claim C5.  With \<open>SOURCE_DATE_EPOCH\<close> set to a text that \<open>strconv.ParseInt\<close> reads as
  a 64-bit integer in base 10, the document is built and its creation time is the
  RFC 3339 rendering of that many seconds since the epoch, whatever the clock says.  With
  it set to a text that is no decimal numeral, \<open>WriteSBOM\<close> fails with the parse
  error and leaves the world as it found it: no file is created.
\<close>

theorem SOURCE_DATE_EPOCH_override:
  "(environ W ''SOURCE_DATE_EPOCH'' = Some v \<and> ParseInt v = Inr sec \<longrightarrow>
      (\<exists>d. buildDocumentSPDX L W spec doc = Inr d \<and>
           ci_Created (doc_CreationInfo d) = unix_RFC3339 L sec)) \<and>
   (environ W ''SOURCE_DATE_EPOCH'' = Some v \<and> \<not> isDecimal v \<longrightarrow>
      (\<exists>c. WriteSBOM L W spec doc =
             (Some (Wrap ''building SPDX document''
                      (Wrap ''failed to parse SOURCE_DATE_EPOCH'' (Lib c))), W)))"
proof (intro conjI impI)
  assume a: "environ W ''SOURCE_DATE_EPOCH'' = Some v \<and> ParseInt v = Inr sec"
  then have t: "sbomTime L W = Inr (unix_RFC3339 L sec)" by (simp add: sbomTime_def)
  then obtain d where d: "buildDocumentSPDX L W spec doc = Inr d"
    by (simp add: buildDocumentSPDX_def)
  from buildDocumentSPDX_Created [OF d] t
  have "ci_Created (doc_CreationInfo d) = unix_RFC3339 L sec" by simp
  with d show "\<exists>d. buildDocumentSPDX L W spec doc = Inr d \<and>
                   ci_Created (doc_CreationInfo d) = unix_RFC3339 L sec" by blast
next
  assume a: "environ W ''SOURCE_DATE_EPOCH'' = Some v \<and> \<not> isDecimal v"
  then obtain c where "ParseInt v = Inl c" using ParseInt_refuses by blast
  with a have "buildDocumentSPDX L W spec doc =
                 Inl (Wrap ''failed to parse SOURCE_DATE_EPOCH'' (Lib c))"
    by (simp add: buildDocumentSPDX_def sbomTime_def)
  then show "\<exists>c. WriteSBOM L W spec doc =
             (Some (Wrap ''building SPDX document''
                      (Wrap ''failed to parse SOURCE_DATE_EPOCH'' (Lib c))), W)"
    by (simp add: WriteSBOM_def)
qed

text \<open>
  One day after the epoch by the override while the clock stands at the epoch; and an
  override that is a word, not a number.
\<close>

theorem SOURCE_DATE_EPOCH_override_witness:
  "(\<exists>d. buildDocumentSPDX exampleLib (worldWithEpoch ''86400'') exampleSpec (exampleBom []) = Inr d \<and>
        ci_Created (doc_CreationInfo d) = ''1970-01-02T00:00:00Z'') \<and>
   (\<exists>c. WriteSBOM exampleLib (worldWithEpoch ''today'') exampleSpec (exampleBom []) =
          (Some (Wrap ''building SPDX document''
                   (Wrap ''failed to parse SOURCE_DATE_EPOCH'' (Lib c))),
           worldWithEpoch ''today''))"
proof -
  have env: "environ (worldWithEpoch v) ''SOURCE_DATE_EPOCH'' = Some v" for v
    by (simp add: worldWithEpoch_def)
  have parse: "ParseInt ''86400'' = Inr 86400"
    by (simp add: ParseInt_def ParseUint_def Let_def)
  have render: "unix_RFC3339 exampleLib 86400 = ''1970-01-02T00:00:00Z''"
    unfolding exampleLib_def lib.simps by code_simp
  have word: "\<not> isDecimal ''today''"
    by (simp add: isDecimal_def isDigit_def)
  from SOURCE_DATE_EPOCH_override
         [of "worldWithEpoch ''86400''" "''86400''" 86400 exampleLib exampleSpec "exampleBom []"]
       env parse render
  have one: "\<exists>d. buildDocumentSPDX exampleLib (worldWithEpoch ''86400'') exampleSpec (exampleBom []) = Inr d \<and>
        ci_Created (doc_CreationInfo d) = ''1970-01-02T00:00:00Z''"
    by simp
  from SOURCE_DATE_EPOCH_override
         [of "worldWithEpoch ''today''" "''today''" _ exampleLib exampleSpec "exampleBom []"]
       env word
  have "\<exists>c. WriteSBOM exampleLib (worldWithEpoch ''today'') exampleSpec (exampleBom []) =
          (Some (Wrap ''building SPDX document''
                   (Wrap ''failed to parse SOURCE_DATE_EPOCH'' (Lib c))),
           worldWithEpoch ''today'')"
    by simp
  with one show ?thesis by blast
qed

lemma describePackage_Describes:
  "doc_DocumentDescribes (describePackage L p d) = doc_DocumentDescribes d @ [ID L (EPkg p)]"
  unfolding describePackage_def using extends_Describes [OF add_extends(1)] by simp

lemma describeFile_Describes:
  "doc_DocumentDescribes (describeFile L f d) = doc_DocumentDescribes d @ [ID L (EFile f)]"
  unfolding describeFile_def using extends_Describes [OF add_extends(2)] by simp

lemma lowerBom_Describes:
  "doc_DocumentDescribes (lowerBom L doc d) =
     doc_DocumentDescribes d @ map (\<lambda>p. ID L (EPkg p)) (bom_Packages doc) @
     map (\<lambda>f. ID L (EFile f)) (bom_Files doc)"
proof -
  have "doc_DocumentDescribes (fold (describePackage L) ps d) =
        doc_DocumentDescribes d @ map (\<lambda>p. ID L (EPkg p)) ps" for ps d
    by (induction ps arbitrary: d) (simp_all add: describePackage_Describes)
  moreover have "doc_DocumentDescribes (fold (describeFile L) fs d) =
        doc_DocumentDescribes d @ map (\<lambda>f. ID L (EFile f)) fs" for fs d
    by (induction fs arbitrary: d) (simp_all add: describeFile_Describes)
  ultimately show ?thesis by (simp add: lowerBom_def)
qed

text \<open>
  Claim C9, as amended.  \<open>WriteSBOM\<close> touches the filesystem only once the document is
  built and merged and the output file can be created: a failure before that returns the
  error and leaves the world as it was.  When the write goes through, it succeeds, and
  the world differs in the file at the package SBOM path alone, which holds the whole
  encoding of the merged document.  When the device fails the write, it returns the
  encoding error and the file just created stays, holding the part of the encoding the
  device took.  These are all the outcomes.
\<close>

theorem WriteSBOM_outcomes:
  "(fst (WriteSBOM L W spec doc) = None \<longrightarrow>
      (\<exists>built d. buildDocumentSPDX L W spec doc = Inr built \<and>
                 ParseBuildSBOM L W spec built = Inr d \<and>
                 snd (WriteSBOM L W spec doc) =
                   W\<lparr>files := (files W)(spec_PackageSBOM spec \<mapsto> json_Encode L d)\<rparr>)) \<and>
   (\<forall>e. fst (WriteSBOM L W spec doc) = Some e \<longrightarrow>
      snd (WriteSBOM L W spec doc) = W \<or>
      (\<exists>n built d. write_fault W = Some n \<and> creatable W (spec_PackageSBOM spec) \<and>
                   buildDocumentSPDX L W spec doc = Inr built \<and>
                   ParseBuildSBOM L W spec built = Inr d \<and>
                   e = Wrap ''encoding spdx sbom'' (Lib ErrIO) \<and>
                   snd (WriteSBOM L W spec doc) =
                     W\<lparr>files := (files W)(spec_PackageSBOM spec \<mapsto>
                                   take n (json_Encode L d))\<rparr>)) \<and>
   ((\<exists>e. buildDocumentSPDX L W spec doc = Inl e) \<or>
    (\<exists>built e. buildDocumentSPDX L W spec doc = Inr built \<and>
                ParseBuildSBOM L W spec built = Inl e) \<or>
    \<not> creatable W (spec_PackageSBOM spec) \<longrightarrow>
      fst (WriteSBOM L W spec doc) \<noteq> None \<and> snd (WriteSBOM L W spec doc) = W) \<and>
   (\<forall>built d. buildDocumentSPDX L W spec doc = Inr built \<and>
               ParseBuildSBOM L W spec built = Inr d \<and>
               creatable W (spec_PackageSBOM spec) \<and> write_fault W = None \<longrightarrow>
      WriteSBOM L W spec doc =
        (None, W\<lparr>files := (files W)(spec_PackageSBOM spec \<mapsto> json_Encode L d)\<rparr>)) \<and>
   (\<forall>n built d. buildDocumentSPDX L W spec doc = Inr built \<and>
                 ParseBuildSBOM L W spec built = Inr d \<and>
                 creatable W (spec_PackageSBOM spec) \<and> write_fault W = Some n \<longrightarrow>
      WriteSBOM L W spec doc =
        (Some (Wrap ''encoding spdx sbom'' (Lib ErrIO)),
         W\<lparr>files := (files W)(spec_PackageSBOM spec \<mapsto> take n (json_Encode L d))\<rparr>))"
proof (intro conjI allI impI)
  show "\<exists>built d. buildDocumentSPDX L W spec doc = Inr built \<and>
                 ParseBuildSBOM L W spec built = Inr d \<and>
                 snd (WriteSBOM L W spec doc) =
                   W\<lparr>files := (files W)(spec_PackageSBOM spec \<mapsto> json_Encode L d)\<rparr>"
    if "fst (WriteSBOM L W spec doc) = None"
    using that by (auto simp: WriteSBOM_def split: sum.splits option.splits if_splits)
  show "snd (WriteSBOM L W spec doc) = W \<or>
      (\<exists>n built d. write_fault W = Some n \<and> creatable W (spec_PackageSBOM spec) \<and>
                   buildDocumentSPDX L W spec doc = Inr built \<and>
                   ParseBuildSBOM L W spec built = Inr d \<and>
                   e = Wrap ''encoding spdx sbom'' (Lib ErrIO) \<and>
                   snd (WriteSBOM L W spec doc) =
                     W\<lparr>files := (files W)(spec_PackageSBOM spec \<mapsto>
                                   take n (json_Encode L d))\<rparr>)"
    if "fst (WriteSBOM L W spec doc) = Some e" for e
    using that by (auto simp: WriteSBOM_def split: sum.splits option.splits if_splits)
  show "fst (WriteSBOM L W spec doc) \<noteq> None"
    if "(\<exists>e. buildDocumentSPDX L W spec doc = Inl e) \<or>
        (\<exists>built e. buildDocumentSPDX L W spec doc = Inr built \<and>
                    ParseBuildSBOM L W spec built = Inl e) \<or>
        \<not> creatable W (spec_PackageSBOM spec)"
    using that by (auto simp: WriteSBOM_def split: sum.splits option.splits)
  show "snd (WriteSBOM L W spec doc) = W"
    if "(\<exists>e. buildDocumentSPDX L W spec doc = Inl e) \<or>
        (\<exists>built e. buildDocumentSPDX L W spec doc = Inr built \<and>
                    ParseBuildSBOM L W spec built = Inl e) \<or>
        \<not> creatable W (spec_PackageSBOM spec)"
    using that by (auto simp: WriteSBOM_def split: sum.splits option.splits)
  show "WriteSBOM L W spec doc =
        (None, W\<lparr>files := (files W)(spec_PackageSBOM spec \<mapsto> json_Encode L d)\<rparr>)"
    if "buildDocumentSPDX L W spec doc = Inr built \<and>
        ParseBuildSBOM L W spec built = Inr d \<and>
        creatable W (spec_PackageSBOM spec) \<and> write_fault W = None" for built d
    using that by (simp add: WriteSBOM_def)
  show "WriteSBOM L W spec doc =
        (Some (Wrap ''encoding spdx sbom'' (Lib ErrIO)),
         W\<lparr>files := (files W)(spec_PackageSBOM spec \<mapsto> take n (json_Encode L d))\<rparr>)"
    if "buildDocumentSPDX L W spec doc = Inr built \<and>
        ParseBuildSBOM L W spec built = Inr d \<and>
        creatable W (spec_PackageSBOM spec) \<and> write_fault W = Some n" for n built d
    using that by (simp add: WriteSBOM_def)
qed

lemma ParseBuildSBOM_ok:
  assumes "files W (spec_BuildEnvSBOM spec) = Some data"
    and "json_Unmarshal L data = Some b"
    and "doc_DocumentDescribes apk \<noteq> []"
  shows "\<exists>d. ParseBuildSBOM L W spec apk = Inr d"
  using assms by (cases "doc_DocumentDescribes apk") (simp_all add: ParseBuildSBOM_def Let_def)

lemma example_build:
  assumes "environ W = Map.empty"
  shows "\<exists>built. buildDocumentSPDX L W exampleSpec (exampleBom rels) = Inr built \<and>
                 doc_DocumentDescribes built \<noteq> []"
  using assms
  by (simp add: buildDocumentSPDX_def sbomTime_def lowerBom_Describes exampleBom_def)

lemma example_merge:
  assumes "environ W = Map.empty" and "files W ''/work/build.spdx.json'' = Some data"
  shows "\<exists>built d. buildDocumentSPDX (decoding b) W exampleSpec (exampleBom rels) = Inr built \<and>
                   ParseBuildSBOM (decoding b) W exampleSpec built = Inr d"
proof -
  from example_build [OF assms(1)] obtain built
    where built: "buildDocumentSPDX (decoding b) W exampleSpec (exampleBom rels) = Inr built"
      and roots: "doc_DocumentDescribes built \<noteq> []"
    by blast
  have "files W (spec_BuildEnvSBOM exampleSpec) = Some data"
    using assms(2) by (simp add: exampleSpec_def)
  moreover have "json_Unmarshal (decoding b) data = Some b" by (simp add: decoding_def)
  ultimately obtain d where "ParseBuildSBOM (decoding b) W exampleSpec built = Inr d"
    using ParseBuildSBOM_ok roots by blast
  with built show ?thesis by blast
qed

lemma extends_ID: "extends d d' \<Longrightarrow> doc_ID d' = doc_ID d"
  unfolding extends_def by auto

lemma lowerBom_ID: "doc_ID (lowerBom L doc d) = doc_ID d"
proof -
  have "doc_ID (fold (describePackage L) ps d) = doc_ID d" for ps d
  proof (induction ps arbitrary: d)
    case Nil
    show ?case by simp
  next
    case (Cons p ps)
    have "doc_ID (describePackage L p d) = doc_ID d"
      unfolding describePackage_def using extends_ID [OF add_extends(1)] by simp
    with Cons show ?case by simp
  qed
  moreover have "doc_ID (fold (describeFile L) fs d) = doc_ID d" for fs d
  proof (induction fs arbitrary: d)
    case Nil
    show ?case by simp
  next
    case (Cons f fs)
    have "doc_ID (describeFile L f d) = doc_ID d"
      unfolding describeFile_def using extends_ID [OF add_extends(2)] by simp
    with Cons show ?case by simp
  qed
  ultimately show ?thesis by (simp add: lowerBom_def)
qed

lemma buildDocumentSPDX_ID:
  "buildDocumentSPDX L W spec doc = Inr built \<Longrightarrow>
   doc_ID built = ''SPDXRef-DOCUMENT-'' @
                  ''apk-'' @ spec_PackageName spec @ ''-'' @ spec_PackageVersion spec"
  by (auto simp: buildDocumentSPDX_def lowerBom_ID newDocument_def split: sum.splits)

lemma ParseBuildSBOM_ID: "ParseBuildSBOM L W spec apk = Inr d \<Longrightarrow> doc_ID d = doc_ID apk"
  by (auto simp: ParseBuildSBOM_def Let_def split: option.splits list.splits)

lemma example_run:
  assumes "environ W = Map.empty" and "files W ''/work/build.spdx.json'' = Some ''{}''"
  shows "\<exists>built d. buildDocumentSPDX exampleLib W exampleSpec (exampleBom rels) = Inr built \<and>
                   ParseBuildSBOM exampleLib W exampleSpec built = Inr d \<and>
                   json_Encode exampleLib d = ''SPDXRef-DOCUMENT-apk-hello-1.0-r0''"
proof -
  from example_build [OF assms(1)] obtain built
    where built: "buildDocumentSPDX exampleLib W exampleSpec (exampleBom rels) = Inr built"
      and roots: "doc_DocumentDescribes built \<noteq> []"
    by blast
  have "files W (spec_BuildEnvSBOM exampleSpec) = Some ''{}''"
    using assms(2) by (simp add: exampleSpec_def)
  moreover have "json_Unmarshal exampleLib ''{}'' = Some emptyDocument"
    by (simp add: exampleLib_def)
  ultimately obtain d where d: "ParseBuildSBOM exampleLib W exampleSpec built = Inr d"
    using ParseBuildSBOM_ok roots by blast
  have "doc_ID d = ''SPDXRef-DOCUMENT-apk-hello-1.0-r0''"
    using ParseBuildSBOM_ID [OF d] buildDocumentSPDX_ID [OF built] by (simp add: exampleSpec_def)
  then have "json_Encode exampleLib d = ''SPDXRef-DOCUMENT-apk-hello-1.0-r0''"
    by (simp add: exampleLib_def)
  with built d show ?thesis by blast
qed

text \<open>
  Three runs, with an encoder that writes the identifier of the document.  On the
  example world the document is written in full.  Without the build environment SBOM
  the merge fails and the world stays as it was.  On a device that fails after three
  bytes, the error is returned and the output file, which was not there, holds three
  bytes.
\<close>

theorem WriteSBOM_outcomes_witness:
  "WriteSBOM exampleLib exampleWorld exampleSpec (exampleBom []) =
     (None, exampleWorld\<lparr>files := (files exampleWorld)
        (''/work/hello.spdx.json'' \<mapsto> ''SPDXRef-DOCUMENT-apk-hello-1.0-r0'')\<rparr>) \<and>
   fst (WriteSBOM exampleLib noBuildSBOM exampleSpec (exampleBom [])) \<noteq> None \<and>
   snd (WriteSBOM exampleLib noBuildSBOM exampleSpec (exampleBom [])) = noBuildSBOM \<and>
   files (faultyDisk 3) ''/work/hello.spdx.json'' = None \<and>
   WriteSBOM exampleLib (faultyDisk 3) exampleSpec (exampleBom []) =
     (Some (Wrap ''encoding spdx sbom'' (Lib ErrIO)),
      faultyDisk 3\<lparr>files := (files (faultyDisk 3))(''/work/hello.spdx.json'' \<mapsto> ''SPD'')\<rparr>)"
proof -
  let ?bom = "exampleBom []"
  have path: "spec_PackageSBOM exampleSpec = ''/work/hello.spdx.json''"
    by (simp add: exampleSpec_def)
  \<comment> \<open>the write goes through\<close>
  have "environ exampleWorld = Map.empty"
    and "files exampleWorld ''/work/build.spdx.json'' = Some ''{}''"
    by (simp_all add: exampleWorld_def)
  from example_run [OF this] obtain built d
    where "buildDocumentSPDX exampleLib exampleWorld exampleSpec ?bom = Inr built"
      and "ParseBuildSBOM exampleLib exampleWorld exampleSpec built = Inr d"
      and enc: "json_Encode exampleLib d = ''SPDXRef-DOCUMENT-apk-hello-1.0-r0''"
    by blast
  moreover have "creatable exampleWorld (spec_PackageSBOM exampleSpec)"
    and "write_fault exampleWorld = None"
    by (simp_all add: exampleWorld_def)
  ultimately have "WriteSBOM exampleLib exampleWorld exampleSpec ?bom =
      (None, exampleWorld\<lparr>files := (files exampleWorld)
         (spec_PackageSBOM exampleSpec \<mapsto> json_Encode exampleLib d)\<rparr>)"
    using WriteSBOM_outcomes [of exampleLib exampleWorld exampleSpec ?bom] by blast
  then have written: "WriteSBOM exampleLib exampleWorld exampleSpec ?bom =
      (None, exampleWorld\<lparr>files := (files exampleWorld)
         (''/work/hello.spdx.json'' \<mapsto> ''SPDXRef-DOCUMENT-apk-hello-1.0-r0'')\<rparr>)"
    by (simp only: enc path)
  \<comment> \<open>the merge fails\<close>
  have "environ noBuildSBOM = Map.empty" by (simp add: noBuildSBOM_def exampleWorld_def)
  from example_build [OF this] obtain b
    where b: "buildDocumentSPDX exampleLib noBuildSBOM exampleSpec ?bom = Inr b"
    by blast
  have "\<exists>e. ParseBuildSBOM exampleLib noBuildSBOM exampleSpec b = Inl e"
    by (simp add: ParseBuildSBOM_def noBuildSBOM_def)
  with b WriteSBOM_outcomes [of exampleLib noBuildSBOM exampleSpec ?bom]
  have untouched: "fst (WriteSBOM exampleLib noBuildSBOM exampleSpec ?bom) \<noteq> None \<and>
        snd (WriteSBOM exampleLib noBuildSBOM exampleSpec ?bom) = noBuildSBOM"
    by blast
  \<comment> \<open>the write fails\<close>
  have absent: "files (faultyDisk 3) ''/work/hello.spdx.json'' = None"
    by (simp add: faultyDisk_def exampleWorld_def)
  have "environ (faultyDisk 3) = Map.empty"
    and "files (faultyDisk 3) ''/work/build.spdx.json'' = Some ''{}''"
    by (simp_all add: faultyDisk_def exampleWorld_def)
  from example_run [OF this] obtain built' d'
    where "buildDocumentSPDX exampleLib (faultyDisk 3) exampleSpec ?bom = Inr built'"
      and "ParseBuildSBOM exampleLib (faultyDisk 3) exampleSpec built' = Inr d'"
      and enc': "json_Encode exampleLib d' = ''SPDXRef-DOCUMENT-apk-hello-1.0-r0''"
    by blast
  moreover have "creatable (faultyDisk 3) (spec_PackageSBOM exampleSpec)"
    and "write_fault (faultyDisk 3) = Some 3"
    by (simp_all add: faultyDisk_def exampleWorld_def)
  ultimately have "WriteSBOM exampleLib (faultyDisk 3) exampleSpec ?bom =
      (Some (Wrap ''encoding spdx sbom'' (Lib ErrIO)),
       faultyDisk 3\<lparr>files := (files (faultyDisk 3))
         (spec_PackageSBOM exampleSpec \<mapsto> take 3 (json_Encode exampleLib d'))\<rparr>)"
    using WriteSBOM_outcomes [of exampleLib "faultyDisk 3" exampleSpec ?bom] by blast
  then have partial: "WriteSBOM exampleLib (faultyDisk 3) exampleSpec ?bom =
      (Some (Wrap ''encoding spdx sbom'' (Lib ErrIO)),
       faultyDisk 3\<lparr>files := (files (faultyDisk 3))(''/work/hello.spdx.json'' \<mapsto> ''SPD'')\<rparr>)"
    by (simp add: enc' path)
  from written untouched absent partial show ?thesis by (intro conjI) simp_all
qed

text \<open>
  The claim as first stated fails: when the device refuses the write, \<open>WriteSBOM\<close>
  returns an error and the output file, which was not there before, is there and empty.
\<close>

theorem WriteSBOM_outcomes_counterexample:
  "files brokenDisk ''/work/hello.spdx.json'' = None \<and>
   fst (WriteSBOM (decoding emptyDocument) brokenDisk exampleSpec (exampleBom [])) =
     Some (Wrap ''encoding spdx sbom'' (Lib ErrIO)) \<and>
   files (snd (WriteSBOM (decoding emptyDocument) brokenDisk exampleSpec (exampleBom [])))
     ''/work/hello.spdx.json'' = Some []"
proof -
  let ?L = "decoding emptyDocument"
  obtain built d
    where "buildDocumentSPDX ?L brokenDisk exampleSpec (exampleBom []) = Inr built"
      and "ParseBuildSBOM ?L brokenDisk exampleSpec built = Inr d"
    using example_merge [of brokenDisk "''{}''" emptyDocument "[]"]
    by (auto simp: brokenDisk_def exampleWorld_def)
  then show ?thesis
    by (simp add: WriteSBOM_def brokenDisk_def exampleWorld_def exampleSpec_def)
qed

section \<open>The scanner\<close>

lemma map_of_storeAll_fold:
  "map_of (fold (\<lambda>path store. (path, g path) # store) ps acc) =
     (\<lambda>k. if k \<in> set ps then Some (g k) else map_of acc k)"
  by (induction ps arbitrary: acc) (auto simp: fun_eq_iff)

lemma set_fst_fold:
  "set (map fst (fold (\<lambda>path store. (path, g path) # store) ps acc)) = set ps \<union> set (map fst acc)"
  by (induction ps arbitrary: acc) auto

lemma map_of_storeAll:
  "map_of (storeAll S dirPath fileList) =
     (\<lambda>k. if k \<in> set (completion S fileList) then Some (scanFile S dirPath k) else None)"
  by (simp add: storeAll_def map_of_storeAll_fold fun_eq_iff)

lemma set_rangeKeys: "set (rangeKeys (storeAll S dirPath fileList)) = set (completion S fileList)"
  using set_fst_fold [of "scanFile S dirPath" "completion S fileList" "[]"]
  by (simp add: rangeKeys_def storeAll_def)

lemma sort_rangeKeys:
  "sort (rangeKeys (storeAll S dirPath fileList)) = sorted_list_of_set (set (completion S fileList))"
proof -
  have "distinct (rangeKeys (storeAll S dirPath fileList))" by (simp add: rangeKeys_def)
  then have "sort (rangeKeys (storeAll S dirPath fileList)) =
             sorted_list_of_set (set (rangeKeys (storeAll S dirPath fileList)))"
    by (simp add: sorted_list_of_set_sort_remdups distinct_remdups_id)
  then show ?thesis by (simp add: set_rangeKeys)
qed

lemma containsRels_all:
  "set pathList \<subseteq> dom (map_of store) \<Longrightarrow>
   containsRels source store pathList =
     map (\<lambda>path. Relationship source (EFile (the (map_of store path))) ''CONTAINS'') pathList"
  unfolding containsRels_def
  by (induction pathList) (auto split: option.splits)


lemma walkFn_files:
  "walkFn acc vs = Inr fl \<Longrightarrow>
   fl = acc @ map (\<lambda>v. rooted (v_path v)) (filter (\<lambda>v. \<not> v_IsDir v \<and> \<not> v_Symlink v) vs)"
proof (induction vs arbitrary: acc)
  case Nil
  then show ?case by simp
next
  case (Cons v vs)
  show ?case
  proof (cases "v_IsDir v \<or> v_Symlink v")
    case True
    with Cons.prems have "walkFn acc vs = Inr fl" by (auto split: if_splits)
    from Cons.IH [OF this] True show ?thesis by auto
  next
    case False
    with Cons.prems have "walkFn (acc @ [rooted (v_path v)]) vs = Inr fl"
      by (auto split: if_splits)
    from Cons.IH [OF this] False show ?thesis by simp
  qed
qed

lemma getDirectoryTree_files:
  "getDirectoryTree vs = Inr fl \<Longrightarrow>
   fl = sort (map (\<lambda>v. rooted (v_path v)) (filter (\<lambda>v. \<not> v_IsDir v \<and> \<not> v_Symlink v) vs))"
  by (auto simp: getDirectoryTree_def split: sum.splits dest: walkFn_files)

lemma pkg_Relationships_append [simp]:
  "pkg_Relationships (append_Relationships new p) = pkg_Relationships p @ new"
  by (cases p) simp

lemma pkg_Relationships_with_FilesAnalyzed [simp]:
  "pkg_Relationships (with_FilesAnalyzed b p) = pkg_Relationships p"
  by (cases p) simp


lemma containsRels_store:
  "containsRels source (storeAll S dirPath fileList)
     (sort (rangeKeys (storeAll S dirPath fileList))) =
   map (\<lambda>path. Relationship source (EFile (scanFile S dirPath path)) ''CONTAINS'')
     (sorted_list_of_set (set (completion S fileList)))"
proof -
  let ?store = "storeAll S dirPath fileList"
  let ?keys = "sorted_list_of_set (set (completion S fileList))"
  have "set ?keys \<subseteq> dom (map_of ?store)"
    by (auto simp: map_of_storeAll)
  then have "containsRels source ?store ?keys =
      map (\<lambda>path. Relationship source (EFile (the (map_of ?store path))) ''CONTAINS'') ?keys"
    by (rule containsRels_all)
  also have "\<dots> = map (\<lambda>path. Relationship source (EFile (scanFile S dirPath path)) ''CONTAINS'') ?keys"
    by (rule map_cong) (auto simp: map_of_storeAll)
  finally show ?thesis by (simp add: sort_rangeKeys)
qed

lemma ScanFiles_form:
  assumes "Abs S (spec_Path spec) = Some dirPath"
    and "getDirectoryTree (WalkDir S dirPath) = Inr fileList"
    and "set (completion S fileList) = set fileList"
  shows "ScanFiles L S spec dirPackage =
     (if closeFails S
      then (Some (Wrap ''waiting for limiter to finish'' (Lib ErrIO)),
            with_FilesAnalyzed True dirPackage)
      else if list_ex (hashFails S dirPath) fileList
      then (Some (Wrap ''hashing'' (Lib ErrHash)), with_FilesAnalyzed True dirPackage)
      else (None,
            append_Relationships
              (map (\<lambda>path. Relationship (ID L (EPkg (with_FilesAnalyzed True dirPackage)))
                              (EFile (scanFile S dirPath path)) ''CONTAINS'')
                 (sorted_list_of_set (set fileList)))
              (with_FilesAnalyzed True dirPackage)))"
  using assms by (simp add: ScanFiles_def Let_def containsRels_store)

lemma scanFile_completion [simp]: "scanFile (S\<lparr>completion := c\<rparr>) = scanFile S"
  by (simp add: scanFile_def fun_eq_iff)

lemma hashFails_completion [simp]: "hashFails (S\<lparr>completion := c\<rparr>) = hashFails S"
  by (simp add: hashFails_def fun_eq_iff)

lemma ScanFiles_ok:
  assumes "Abs S (spec_Path spec) = Some dirPath"
    and "getDirectoryTree (WalkDir S dirPath) = Inr fileList"
    and "set (completion S fileList) = set fileList"
    and "ScanFiles L S spec dirPackage = (None, scanned)"
  shows "\<not> closeFails S \<and> \<not> list_ex (hashFails S dirPath) fileList \<and>
     scanned = append_Relationships
              (map (\<lambda>path. Relationship (ID L (EPkg (with_FilesAnalyzed True dirPackage)))
                              (EFile (scanFile S dirPath path)) ''CONTAINS'')
                 (sorted_list_of_set (set fileList)))
              (with_FilesAnalyzed True dirPackage)"
proof -
  note form = ScanFiles_form [OF assms(1,2,3), of L dirPackage]
  show ?thesis
  proof (cases "closeFails S")
    case True
    with form assms(4) show ?thesis by simp
  next
    case False
    note nc = this
    show ?thesis
    proof (cases "list_ex (hashFails S dirPath) fileList")
      case True
      with form nc assms(4) show ?thesis by simp
    next
      case False
      with form nc assms(4) show ?thesis by simp
    qed
  qed
qed


lemma ScanFiles_order:
  assumes "Abs S (spec_Path spec) = Some dirPath"
    and "getDirectoryTree (WalkDir S dirPath) = Inr fileList"
    and "set (completion S fileList) = set fileList"
    and "ScanFiles L S spec dirPackage = (None, scanned)"
    and "set (c fileList) = set fileList"
  shows "ScanFiles L (S\<lparr>completion := c\<rparr>) spec dirPackage = (None, scanned)"
proof -
  let ?S = "S\<lparr>completion := c\<rparr>"
  have 1: "Abs ?S (spec_Path spec) = Some dirPath" using assms(1) by simp
  have 2: "getDirectoryTree (WalkDir ?S dirPath) = Inr fileList" using assms(2) by simp
  have 3: "set (completion ?S fileList) = set fileList" using assms(5) by simp
  note ok = ScanFiles_ok [OF assms(1-4)]
  from ok have "\<not> closeFails ?S" by simp
  moreover from ok have "\<not> list_ex (hashFails ?S dirPath) fileList" by simp
  ultimately show ?thesis
    using ok by (simp only: ScanFiles_form [OF 1 2 3] if_False scanFile_completion)
qed

lemma getDirectoryTree_set:
  assumes "getDirectoryTree vs = Inr fileList"
  shows "set fileList =
      (\<lambda>v. rooted (v_path v)) ` {v \<in> set vs. \<not> v_IsDir v \<and> \<not> v_Symlink v}"
  by (subst getDirectoryTree_files [OF assms]) simp


text \<open>
  Claim C8.  When \<open>ScanFiles\<close> succeeds, it has appended to the relationships of the
  package one \<open>CONTAINS\<close> relationship for each path of the store, with the package as
  source and the file of that path as target, in strictly ascending order of the paths;
  the paths are those of the entries of the tree that are neither directories nor
  symbolic links.  A package fresh from \<open>GenerateAPKPackage\<close> has these relationships
  and no other.  Whatever the order in which the units of work finish, the result is
  the same.
\<close>

theorem ScanFiles_relationships:
  assumes "Abs S (spec_Path spec) = Some dirPath"
    and "getDirectoryTree (WalkDir S dirPath) = Inr fileList"
    and "mset (completion S fileList) = mset fileList"
    and "ScanFiles L S spec dirPackage = (None, scanned)"
  shows "pkg_Relationships scanned =
           pkg_Relationships dirPackage @
           map (\<lambda>path. Relationship (ID L (EPkg (with_FilesAnalyzed True dirPackage)))
                           (EFile (scanFile S dirPath path)) ''CONTAINS'')
             (sorted_list_of_set (set fileList)) \<and>
         set fileList =
           (\<lambda>v. rooted (v_path v)) `
             {v \<in> set (WalkDir S dirPath). \<not> v_IsDir v \<and> \<not> v_Symlink v} \<and>
         (\<forall>spec'. GenerateAPKPackage spec' = Inr dirPackage \<longrightarrow>
            pkg_Relationships scanned =
              map (\<lambda>path. Relationship (ID L (EPkg (with_FilesAnalyzed True dirPackage)))
                              (EFile (scanFile S dirPath path)) ''CONTAINS'')
                (sorted_list_of_set (set fileList))) \<and>
         (\<forall>c. mset (c fileList) = mset fileList \<longrightarrow>
            ScanFiles L (S\<lparr>completion := c\<rparr>) spec dirPackage = (None, scanned))"
proof (intro conjI allI impI)
  from assms(3) have same: "set (completion S fileList) = set fileList"
    by (rule mset_eq_setD)
  note ok = ScanFiles_ok [OF assms(1,2) same assms(4)]
  then show rels: "pkg_Relationships scanned =
           pkg_Relationships dirPackage @
           map (\<lambda>path. Relationship (ID L (EPkg (with_FilesAnalyzed True dirPackage)))
                           (EFile (scanFile S dirPath path)) ''CONTAINS'')
             (sorted_list_of_set (set fileList))"
    by simp
  show "set fileList =
           (\<lambda>v. rooted (v_path v)) `
             {v \<in> set (WalkDir S dirPath). \<not> v_IsDir v \<and> \<not> v_Symlink v}"
    using assms(2) by (rule getDirectoryTree_set)
  show "pkg_Relationships scanned =
              map (\<lambda>path. Relationship (ID L (EPkg (with_FilesAnalyzed True dirPackage)))
                              (EFile (scanFile S dirPath path)) ''CONTAINS'')
                (sorted_list_of_set (set fileList))"
    if "GenerateAPKPackage spec' = Inr dirPackage" for spec'
  proof -
    from that have "pkg_Relationships dirPackage = []"
      by (auto simp: GenerateAPKPackage_def split: if_splits)
    with rels show ?thesis by simp
  qed
  show "ScanFiles L (S\<lparr>completion := c\<rparr>) spec dirPackage = (None, scanned)"
    if "mset (c fileList) = mset fileList" for c
    using assms(1,2) same assms(4) mset_eq_setD [OF that] by (rule ScanFiles_order)
qed

lemma example_tree: "getDirectoryTree exampleVisits = Inr [''/README'', ''/bin/hello'']"
  by (simp add: getDirectoryTree_def exampleVisits_def rooted_def)

lemma example_scan:
  "ScanFiles exampleLib exampleScanner exampleSpec (examplePkg ''hello'' []) =
   (None, Pkg True ''hello'' ''1.0''
      [Relationship ''SPDXRef-Package-hello''
         (EFile (File ''/README''
            [(''SHA1'', ''SHA1:/work/README''), (''SHA256'', ''SHA256:/work/README''),
             (''SHA512'', ''SHA512:/work/README'')] []))
         ''CONTAINS'',
       Relationship ''SPDXRef-Package-hello''
         (EFile (File ''/bin/hello''
            [(''SHA1'', ''SHA1:/work/bin/hello''), (''SHA256'', ''SHA256:/work/bin/hello''),
             (''SHA512'', ''SHA512:/work/bin/hello'')] []))
         ''CONTAINS'']
      NOASSERTION NOASSERTION [] [] [] [])"
  by (simp add: ScanFiles_def example_tree exampleScanner_def exampleSpec_def examplePkg_def
        storeAll_def rangeKeys_def containsRels_def scanFile_def hashFails_def algos_def
        joinPath_def
        exampleLib_def exampleID_def Let_def)

text \<open>
  The example tree scanned with the units finishing last to first, and again with them
  finishing first to last: the symbolic link and the directories leave no trace, and the
  two files come in the order of their paths both times.
\<close>

theorem ScanFiles_relationships_witness:
  "ScanFiles exampleLib exampleScanner exampleSpec (examplePkg ''hello'' []) =
   (None, Pkg True ''hello'' ''1.0''
      [Relationship ''SPDXRef-Package-hello''
         (EFile (File ''/README''
            [(''SHA1'', ''SHA1:/work/README''), (''SHA256'', ''SHA256:/work/README''),
             (''SHA512'', ''SHA512:/work/README'')] []))
         ''CONTAINS'',
       Relationship ''SPDXRef-Package-hello''
         (EFile (File ''/bin/hello''
            [(''SHA1'', ''SHA1:/work/bin/hello''), (''SHA256'', ''SHA256:/work/bin/hello''),
             (''SHA512'', ''SHA512:/work/bin/hello'')] []))
         ''CONTAINS'']
      NOASSERTION NOASSERTION [] [] [] []) \<and>
   ScanFiles exampleLib (exampleScanner\<lparr>completion := id\<rparr>) exampleSpec (examplePkg ''hello'' []) =
   ScanFiles exampleLib exampleScanner exampleSpec (examplePkg ''hello'' [])"
proof -
  let ?fl = "[''/README'', ''/bin/hello'']"
  have 1: "Abs exampleScanner (spec_Path exampleSpec) = Some ''/work''"
    by (simp add: exampleScanner_def exampleSpec_def)
  have 2: "getDirectoryTree (WalkDir exampleScanner ''/work'') = Inr ?fl"
    by (simp add: exampleScanner_def example_tree)
  have 3: "mset (completion exampleScanner ?fl) = mset ?fl"
    by (simp add: exampleScanner_def)
  have 4: "mset (id ?fl) = mset ?fl" by simp
  from ScanFiles_relationships [OF 1 2 3 example_scan] 4
  have "ScanFiles exampleLib (exampleScanner\<lparr>completion := id\<rparr>) exampleSpec
          (examplePkg ''hello'' []) =
        ScanFiles exampleLib exampleScanner exampleSpec (examplePkg ''hello'' [])"
    unfolding example_scan by blast
  with example_scan show ?thesis by simp
qed

section \<open>No dangling reference\<close>

lemma extends_recordIDs: "extends d d' \<Longrightarrow> set (recordIDs d) \<subseteq> set (recordIDs d')"
  unfolding extends_def recordIDs_def by auto

lemma relsClosed_mono:
  assumes "relsClosed d" and "doc_Relationships d' = doc_Relationships d"
    and "set (recordIDs d) \<subseteq> set (recordIDs d')"
  shows "relsClosed d'"
  using assms unfolding relsClosed_def list_all_iff by auto

lemma relsClosed_addPkg:
  "relsClosed d \<Longrightarrow> relsClosed (d\<lparr>doc_Packages := doc_Packages d @ ps\<rparr>)"
  by (erule relsClosed_mono) (auto simp: recordIDs_def)

lemma relsClosed_addFile:
  "relsClosed d \<Longrightarrow> relsClosed (d\<lparr>doc_Files := doc_Files d @ fs\<rparr>)"
  by (erule relsClosed_mono) (auto simp: recordIDs_def)

lemma relsClosed_describe:
  "relsClosed d \<Longrightarrow> relsClosed (d\<lparr>doc_DocumentDescribes := ds\<rparr>)"
  by (erule relsClosed_mono) (auto simp: recordIDs_def)

lemma recordIDs_appendRel [simp]: "recordIDs (appendRel L r d) = recordIDs d"
  by (simp add: appendRel_def recordIDs_def)

lemma relsClosed_appendRel:
  assumes "relsClosed d" and "rel_Source r \<in> set (recordIDs d)"
    and "ID L (rel_Target r) \<in> set (recordIDs d)"
  shows "relsClosed (appendRel L r d)"
  using assms unfolding relsClosed_def
  by (simp add: appendRel_def recordIDs_def spdxRel_def)

lemma sp_ID_spdxPkg [simp]: "sp_ID (spdxPkg L p) = ID L (EPkg p)"
  by (simp add: spdxPkg_def Let_def)

lemma sf_ID_spdxFile [simp]: "sf_ID (spdxFile L f) = ID L (EFile f)"
  by (simp add: spdxFile_def)

lemma lowering_closed:
  "relsClosed doc \<and> ownsSources L (EPkg p) \<longrightarrow>
     relsClosed (addPackage L doc p) \<and> ID L (EPkg p) \<in> set (recordIDs (addPackage L doc p))"
  "relsClosed doc \<and> ownsSources L (EFile f) \<longrightarrow>
     relsClosed (addFile L doc f) \<and> ID L (EFile f) \<in> set (recordIDs (addFile L doc f))"
  "relsClosed doc \<and> ownsSources L e \<longrightarrow>
     relsClosed (addElement L doc e) \<and> ID L e \<in> set (recordIDs (addElement L doc e))"
  "\<forall>owner. relsClosed doc \<and> owner \<in> set (recordIDs doc) \<and> sourcesAre L (Some owner) rels \<longrightarrow>
     relsClosed (addPackageRels L doc rels)"
  "relsClosed doc \<and> sourcesAre L None rels' \<longrightarrow> relsClosed (addFileRels L doc rels')"
proof (induction L doc p and L doc f and L doc e and L doc rels and L doc rels'
       rule: addPackage_addFile_addElement_addPackageRels_addFileRels.induct)
  case (1 L doc fa n v rels ld lc c ns a cs)
  let ?p = "Pkg fa n v rels ld lc c ns a cs"
  let ?d = "doc\<lparr>doc_Packages := doc_Packages doc @ [spdxPkg L ?p]\<rparr>"
  show ?case
  proof (intro impI, elim conjE)
    assume closed: "relsClosed doc" and own: "ownsSources L (EPkg ?p)"
    have here: "ID L (EPkg ?p) \<in> set (recordIDs ?d)" by (simp add: recordIDs_def)
    from closed have "relsClosed ?d" by (rule relsClosed_addPkg)
    moreover from own have "sourcesAre L (Some (ID L (EPkg ?p))) rels" by simp
    ultimately have "relsClosed (addPackageRels L ?d rels)" using 1 here by blast
    moreover from here extends_recordIDs [OF add_extends(4) [of ?d L rels]]
    have "ID L (EPkg ?p) \<in> set (recordIDs (addPackageRels L ?d rels))" by blast
    ultimately show "relsClosed (addPackage L doc ?p) \<and>
        ID L (EPkg ?p) \<in> set (recordIDs (addPackage L doc ?p))" by simp
  qed
next
  case (2 L doc n cs rels)
  let ?f = "File n cs rels"
  let ?d = "doc\<lparr>doc_Files := doc_Files doc @ [spdxFile L ?f]\<rparr>"
  show ?case
  proof (intro impI, elim conjE)
    assume closed: "relsClosed doc" and own: "ownsSources L (EFile ?f)"
    have here: "ID L (EFile ?f) \<in> set (recordIDs ?d)" by (simp add: recordIDs_def)
    from closed have "relsClosed ?d" by (rule relsClosed_addFile)
    moreover from own have "sourcesAre L None rels" by simp
    ultimately have "relsClosed (addFileRels L ?d rels)" using 2 by blast
    moreover from here extends_recordIDs [OF add_extends(5) [of ?d L rels]]
    have "ID L (EFile ?f) \<in> set (recordIDs (addFileRels L ?d rels))" by blast
    ultimately show "relsClosed (addFile L doc ?f) \<and>
        ID L (EFile ?f) \<in> set (recordIDs (addFile L doc ?f))" by simp
  qed
next
  case (3 L doc v)
  then show ?case by simp
next
  case (4 L doc v)
  then show ?case by simp
next
  case (5 L doc)
  then show ?case by simp
next
  case (6 L doc s t ty rels)
  let ?r = "Relationship s t ty"
  show ?case
  proof (intro allI impI, elim conjE)
    fix owner
    assume closed: "relsClosed doc" and owner: "owner \<in> set (recordIDs doc)"
      and src: "sourcesAre L (Some owner) (?r # rels)"
    from src have s: "s = owner" and t: "ownsSources L t" and rest: "sourcesAre L (Some owner) rels"
      by simp_all
    show "relsClosed (addPackageRels L doc (?r # rels))"
    proof (cases "sbomHasRelationship L doc ?r")
      case True
      from 6(1) [OF True] closed owner rest have "relsClosed (addPackageRels L doc rels)"
        by blast
      with True show ?thesis by simp
    next
      case False
      let ?d1 = "addElement L doc t"
      let ?d2 = "appendRel L ?r ?d1"
      from 6(2) [OF False] closed t
      have c1: "relsClosed ?d1" and tid: "ID L t \<in> set (recordIDs ?d1)" by blast+
      from owner extends_recordIDs [OF add_extends(3) [of doc L t]]
      have o1: "owner \<in> set (recordIDs ?d1)" by blast
      from c1 o1 tid s have c2: "relsClosed ?d2"
        by (intro relsClosed_appendRel) simp_all
      from o1 have o2: "owner \<in> set (recordIDs ?d2)" by simp
      from 6(3) [OF False] c2 o2 rest have "relsClosed (addPackageRels L ?d2 rels)" by blast
      with False show ?thesis by simp
    qed
  qed
next
  case (7 L doc)
  then show ?case by simp
next
  case (8 L doc s t ty rels)
  let ?r = "Relationship s t ty"
  show ?case
  proof (intro impI, elim conjE)
    assume closed: "relsClosed doc" and src: "sourcesAre L None (?r # rels)"
    from src have t: "ownsSources L t" and rest: "sourcesAre L None rels" by simp_all
    show "relsClosed (addFileRels L doc (?r # rels))"
    proof (cases "sbomHasRelationship L doc ?r")
      case True
      from 8(1) [OF True] closed rest have "relsClosed (addFileRels L doc rels)" by blast
      with True show ?thesis by simp
    next
      case False
      from 8(2) [OF False] closed t have "relsClosed (addElement L doc t)" by blast
      with 8(3) [OF False] rest have "relsClosed (addFileRels L (addElement L doc t) rels)"
        by blast
      with False show ?thesis by simp
    qed
  qed
qed


lemma noDangling_describePackage:
  assumes "noDangling d" and "ownsSources L (EPkg p)"
  shows "noDangling (describePackage L p d)"
proof -
  let ?d = "d\<lparr>doc_DocumentDescribes := doc_DocumentDescribes d @ [ID L (EPkg p)]\<rparr>"
  from assms(1) have "relsClosed ?d" by (simp add: noDangling_def relsClosed_describe)
  with lowering_closed(1) [of ?d L p] assms(2)
  have closed: "relsClosed (addPackage L ?d p)"
    and here: "ID L (EPkg p) \<in> set (recordIDs (addPackage L ?d p))" by blast+
  have "set (recordIDs d) \<subseteq> set (recordIDs ?d)" by (simp add: recordIDs_def)
  with extends_recordIDs [OF add_extends(1) [of ?d L p]]
  have "set (recordIDs d) \<subseteq> set (recordIDs (addPackage L ?d p))" by blast
  with assms(1) here
  have "list_all (\<lambda>i. i \<in> set (recordIDs (addPackage L ?d p)))
          (doc_DocumentDescribes d @ [ID L (EPkg p)])"
    by (auto simp: noDangling_def list_all_iff)
  moreover have "doc_DocumentDescribes (addPackage L ?d p) = doc_DocumentDescribes d @ [ID L (EPkg p)]"
    using extends_Describes [OF add_extends(1) [of ?d L p]] by simp
  ultimately show ?thesis using closed by (simp add: noDangling_def describePackage_def)
qed

lemma noDangling_describeFile:
  assumes "noDangling d" and "ownsSources L (EFile f)"
  shows "noDangling (describeFile L f d)"
proof -
  let ?d = "d\<lparr>doc_DocumentDescribes := doc_DocumentDescribes d @ [ID L (EFile f)]\<rparr>"
  from assms(1) have "relsClosed ?d" by (simp add: noDangling_def relsClosed_describe)
  with lowering_closed(2) [of ?d L f] assms(2)
  have closed: "relsClosed (addFile L ?d f)"
    and here: "ID L (EFile f) \<in> set (recordIDs (addFile L ?d f))" by blast+
  have "set (recordIDs d) \<subseteq> set (recordIDs ?d)" by (simp add: recordIDs_def)
  with extends_recordIDs [OF add_extends(2) [of ?d L f]]
  have "set (recordIDs d) \<subseteq> set (recordIDs (addFile L ?d f))" by blast
  with assms(1) here
  have "list_all (\<lambda>i. i \<in> set (recordIDs (addFile L ?d f)))
          (doc_DocumentDescribes d @ [ID L (EFile f)])"
    by (auto simp: noDangling_def list_all_iff)
  moreover have "doc_DocumentDescribes (addFile L ?d f) = doc_DocumentDescribes d @ [ID L (EFile f)]"
    using extends_Describes [OF add_extends(2) [of ?d L f]] by simp
  ultimately show ?thesis using closed by (simp add: noDangling_def describeFile_def)
qed

lemma noDangling_lowerBom:
  assumes "noDangling d"
    and "list_all (\<lambda>p. ownsSources L (EPkg p)) (bom_Packages doc)"
    and "list_all (\<lambda>f. ownsSources L (EFile f)) (bom_Files doc)"
  shows "noDangling (lowerBom L doc d)"
proof -
  have pk: "noDangling d \<Longrightarrow> list_all (\<lambda>p. ownsSources L (EPkg p)) ps \<Longrightarrow>
            noDangling (fold (describePackage L) ps d)" for ps d
    by (induction ps arbitrary: d) (simp_all add: noDangling_describePackage)
  have fl: "noDangling d \<Longrightarrow> list_all (\<lambda>f. ownsSources L (EFile f)) fs \<Longrightarrow>
            noDangling (fold (describeFile L) fs d)" for fs d
    by (induction fs arbitrary: d) (simp_all add: noDangling_describeFile)
  from assms show ?thesis unfolding lowerBom_def by (intro fl pk)
qed

lemma noDangling_newDocument: "noDangling (newDocument L spec created)"
  by (simp add: noDangling_def relsClosed_def newDocument_def)

lemma noDangling_merge:
  assumes "noDangling apk" and "ParseBuildSBOM L W spec apk = Inr final"
  shows "noDangling final"
proof -
  from assms(2) obtain rootId roots b
    where roots: "doc_DocumentDescribes apk = rootId # roots"
      and final: "final = apk\<lparr>doc_Packages := doc_Packages apk @ buildPackages L b,
          doc_Relationships := doc_Relationships apk @
            map (\<lambda>p. \<lparr>sr_Element = sp_ID p, sr_Type = ''BUILD_DEPENDENCY_OF'',
                       sr_Related = rootId\<rparr>) (buildPackages L b)\<rparr>"
    by (auto simp: ParseBuildSBOM_def Let_def split: option.splits list.splits)
  have ids: "set (recordIDs final) = set (recordIDs apk) \<union> sp_ID ` set (buildPackages L b)"
    by (auto simp: final recordIDs_def)
  from assms(1) roots have root: "rootId \<in> set (recordIDs apk)"
    by (simp add: noDangling_def)
  from assms(1) have old: "\<forall>r\<in>set (doc_Relationships apk).
      sr_Element r \<in> set (recordIDs apk) \<and> sr_Related r \<in> set (recordIDs apk)"
    by (simp add: noDangling_def relsClosed_def list_all_iff)
  have "relsClosed final"
    unfolding relsClosed_def list_all_iff ids using old root by (auto simp: final)
  moreover from assms(1) have "list_all (\<lambda>i. i \<in> set (recordIDs final)) (doc_DocumentDescribes final)"
    unfolding ids by (auto simp: noDangling_def list_all_iff final)
  ultimately show ?thesis by (simp add: noDangling_def)
qed

text \<open>
  Claim C7, as amended.  Let every relationship held by a package of the bill of
  materials, at any depth, name that package as its source.  Then in the document built
  from it and merged with the build environment SBOM, both ends of every relationship
  record and every described root are identifiers of package or file records of that
  document.
\<close>

theorem no_dangling_reference:
  assumes "list_all (\<lambda>p. ownsSources L (EPkg p)) (bom_Packages doc)"
    and "list_all (\<lambda>f. ownsSources L (EFile f)) (bom_Files doc)"
    and "buildAndMerge L W spec doc = Inr final"
  shows "(\<forall>r\<in>set (doc_Relationships final).
            sr_Element r \<in> sp_ID ` set (doc_Packages final) \<union> sf_ID ` set (doc_Files final) \<and>
            sr_Related r \<in> sp_ID ` set (doc_Packages final) \<union> sf_ID ` set (doc_Files final)) \<and>
         set (doc_DocumentDescribes final) \<subseteq>
           sp_ID ` set (doc_Packages final) \<union> sf_ID ` set (doc_Files final)"
proof -
  from assms(3) obtain created where
    merged: "ParseBuildSBOM L W spec (lowerBom L doc (newDocument L spec created)) = Inr final"
    by (auto simp: buildAndMerge_def buildDocumentSPDX_def split: sum.splits)
  have "noDangling (lowerBom L doc (newDocument L spec created))"
    using noDangling_newDocument assms(1,2) by (rule noDangling_lowerBom)
  then have "noDangling final" using merged by (rule noDangling_merge)
  then show ?thesis
    by (auto simp: noDangling_def relsClosed_def list_all_iff recordIDs_def)
qed

text \<open>
  The package hello with two files, merged with a build environment SBOM of one
  package.
\<close>

theorem no_dangling_reference_witness:
  "\<exists>final. buildAndMerge (decoding exampleBuildSBOM) exampleWorld exampleSpec
              (exampleBom [containsFile ''/README'', containsFile ''/bin/hello'']) = Inr final \<and>
           set (map sr_Element (doc_Relationships final) @ map sr_Related (doc_Relationships final) @
                doc_DocumentDescribes final)
           \<subseteq> sp_ID ` set (doc_Packages final) \<union> sf_ID ` set (doc_Files final)"
proof -
  let ?L = "decoding exampleBuildSBOM"
  let ?bom = "exampleBom [containsFile ''/README'', containsFile ''/bin/hello'']"
  have 1: "list_all (\<lambda>p. ownsSources ?L (EPkg p)) (bom_Packages ?bom)"
    by (simp add: exampleBom_def examplePkg_def containsFile_def decoding_def exampleLib_def
          exampleID_def)
  have 2: "list_all (\<lambda>f. ownsSources ?L (EFile f)) (bom_Files ?bom)"
    by (simp add: exampleBom_def)
  have "environ exampleWorld = Map.empty"
    and "files exampleWorld ''/work/build.spdx.json'' = Some ''{}''"
    by (simp_all add: exampleWorld_def)
  from example_merge [OF this] obtain built final
    where "buildDocumentSPDX ?L exampleWorld exampleSpec ?bom = Inr built"
      and "ParseBuildSBOM ?L exampleWorld exampleSpec built = Inr final"
    by blast
  then have 3: "buildAndMerge ?L exampleWorld exampleSpec ?bom = Inr final"
    by (simp add: buildAndMerge_def)
  from no_dangling_reference [OF 1 2 3] 3 show ?thesis by auto
qed

text \<open>
  The claim as first stated fails: a relationship whose source is a package outside the
  bill of materials is lowered to a record whose element has no record in the document.
\<close>

theorem no_dangling_reference_counterexample:
  "map_sum id (\<lambda>final. (map sr_Element (doc_Relationships final),
                       map sp_ID (doc_Packages final), map sf_ID (doc_Files final)))
     (buildAndMerge (decoding emptyDocument) exampleWorld exampleSpec
        (exampleBom [strayRelationship]))
   = Inr ([''SPDXRef-Package-ghost''], [''SPDXRef-Package-hello''], [''SPDXRef-File-/f''])"
  by (simp add: buildAndMerge_def buildDocumentSPDX_def sbomTime_def exampleWorld_def
        lowerBom_def exampleBom_def describePackage_def examplePkg_def strayRelationship_def
        newDocument_def sbomHasRelationship_def appendRel_def spdxRel_def spdxFile_def
        ParseBuildSBOM_def exampleSpec_def decoding_def exampleLib_def exampleID_def
        buildPackages_def emptyDocument_def)

section \<open>No relationship record twice\<close>

lemma sbomHasRelationship_iff:
  "sbomHasRelationship L doc rel \<longleftrightarrow> spdxRel L rel \<in> set (doc_Relationships doc)"
proof -
  have "(sr_Element x = rel_Source rel \<and> sr_Related x = ID L (rel_Target rel) \<and>
         sr_Type x = rel_Type rel) \<longleftrightarrow> x = spdxRel L rel" for x
    by (cases x) (auto simp: spdxRel_def)
  then show ?thesis by (simp add: sbomHasRelationship_def list_ex_iff)
qed

lemma Relationships_appendRel [simp]:
  "doc_Relationships (appendRel L r d) = doc_Relationships d @ [spdxRel L r]"
  by (simp add: appendRel_def)

lemma lowering_distinct:
  "distinct (doc_Relationships doc) \<and> noRecurrence L (EPkg p) \<longrightarrow>
     distinct (doc_Relationships (addPackage L doc p)) \<and>
     set (doc_Relationships (addPackage L doc p)) \<subseteq>
       set (doc_Relationships doc) \<union> set (heldBy L (EPkg p))"
  "distinct (doc_Relationships doc) \<and> noRecurrence L (EFile f) \<longrightarrow>
     distinct (doc_Relationships (addFile L doc f)) \<and>
     set (doc_Relationships (addFile L doc f)) \<subseteq>
       set (doc_Relationships doc) \<union> set (heldBy L (EFile f))"
  "distinct (doc_Relationships doc) \<and> noRecurrence L e \<longrightarrow>
     distinct (doc_Relationships (addElement L doc e)) \<and>
     set (doc_Relationships (addElement L doc e)) \<subseteq>
       set (doc_Relationships doc) \<union> set (heldBy L e)"
  "distinct (doc_Relationships doc) \<and> noRecurrenceIn L True rels \<longrightarrow>
     distinct (doc_Relationships (addPackageRels L doc rels)) \<and>
     set (doc_Relationships (addPackageRels L doc rels)) \<subseteq>
       set (doc_Relationships doc) \<union> set (heldIn L True rels)"
  "distinct (doc_Relationships doc) \<and> noRecurrenceIn L False rels' \<longrightarrow>
     distinct (doc_Relationships (addFileRels L doc rels')) \<and>
     set (doc_Relationships (addFileRels L doc rels')) \<subseteq>
       set (doc_Relationships doc) \<union> set (heldIn L False rels')"
proof (induction L doc p and L doc f and L doc e and L doc rels and L doc rels'
       rule: addPackage_addFile_addElement_addPackageRels_addFileRels.induct)
  case (1 L doc fa n v rels ld lc c ns a cs)
  then show ?case by simp
next
  case (2 L doc n cs rels)
  then show ?case by simp
next
  case (3 L doc v)
  then show ?case by simp
next
  case (4 L doc v)
  then show ?case by simp
next
  case (5 L doc)
  then show ?case by simp
next
  case (6 L doc s t ty rels)
  let ?r = "Relationship s t ty"
  show ?case
  proof (intro impI, elim conjE)
    assume dist: "distinct (doc_Relationships doc)" and nr: "noRecurrenceIn L True (?r # rels)"
    from nr have fresh: "spdxRel L ?r \<notin> set (heldBy L t)" and t: "noRecurrence L t"
      and rest: "noRecurrenceIn L True rels" by simp_all
    show "distinct (doc_Relationships (addPackageRels L doc (?r # rels))) \<and>
          set (doc_Relationships (addPackageRels L doc (?r # rels))) \<subseteq>
            set (doc_Relationships doc) \<union> set (heldIn L True (?r # rels))"
    proof (cases "sbomHasRelationship L doc ?r")
      case True
      from 6(1) [OF True] dist rest
      have "distinct (doc_Relationships (addPackageRels L doc rels)) \<and>
            set (doc_Relationships (addPackageRels L doc rels)) \<subseteq>
              set (doc_Relationships doc) \<union> set (heldIn L True rels)" by blast
      with True show ?thesis by auto
    next
      case False
      let ?d1 = "addElement L doc t"
      let ?d2 = "appendRel L ?r ?d1"
      from 6(2) [OF False] dist t
      have d1: "distinct (doc_Relationships ?d1)"
        and s1: "set (doc_Relationships ?d1) \<subseteq> set (doc_Relationships doc) \<union> set (heldBy L t)"
        by blast+
      from False have "spdxRel L ?r \<notin> set (doc_Relationships doc)"
        by (simp add: sbomHasRelationship_iff)
      with s1 fresh have new: "spdxRel L ?r \<notin> set (doc_Relationships ?d1)" by blast
      with d1 have d2: "distinct (doc_Relationships ?d2)" by simp
      from 6(3) [OF False] d2 rest
      have d3: "distinct (doc_Relationships (addPackageRels L ?d2 rels))"
        and s3: "set (doc_Relationships (addPackageRels L ?d2 rels)) \<subseteq>
              set (doc_Relationships ?d2) \<union> set (heldIn L True rels)" by blast+
      from s3 s1 have "set (doc_Relationships (addPackageRels L ?d2 rels)) \<subseteq>
          set (doc_Relationships doc) \<union> set (heldIn L True (?r # rels))"
        by auto
      with d3 False show ?thesis by simp
    qed
  qed
next
  case (7 L doc)
  then show ?case by simp
next
  case (8 L doc s t ty rels)
  let ?r = "Relationship s t ty"
  show ?case
  proof (intro impI, elim conjE)
    assume dist: "distinct (doc_Relationships doc)" and nr: "noRecurrenceIn L False (?r # rels)"
    from nr have t: "noRecurrence L t" and rest: "noRecurrenceIn L False rels" by simp_all
    show "distinct (doc_Relationships (addFileRels L doc (?r # rels))) \<and>
          set (doc_Relationships (addFileRels L doc (?r # rels))) \<subseteq>
            set (doc_Relationships doc) \<union> set (heldIn L False (?r # rels))"
    proof (cases "sbomHasRelationship L doc ?r")
      case True
      from 8(1) [OF True] dist rest
      have "distinct (doc_Relationships (addFileRels L doc rels)) \<and>
            set (doc_Relationships (addFileRels L doc rels)) \<subseteq>
              set (doc_Relationships doc) \<union> set (heldIn L False rels)" by blast
      with True show ?thesis by auto
    next
      case False
      let ?d1 = "addElement L doc t"
      from 8(2) [OF False] dist t
      have d1: "distinct (doc_Relationships ?d1)"
        and s1: "set (doc_Relationships ?d1) \<subseteq> set (doc_Relationships doc) \<union> set (heldBy L t)"
        by blast+
      from 8(3) [OF False] d1 rest
      have d3: "distinct (doc_Relationships (addFileRels L ?d1 rels))"
        and s3: "set (doc_Relationships (addFileRels L ?d1 rels)) \<subseteq>
              set (doc_Relationships ?d1) \<union> set (heldIn L False rels)" by blast+
      from s3 s1 have "set (doc_Relationships (addFileRels L ?d1 rels)) \<subseteq>
          set (doc_Relationships doc) \<union> set (heldIn L False (?r # rels))"
        by auto
      with d3 False show ?thesis by simp
    qed
  qed
qed

lemma distinct_describePackage:
  assumes "distinct (doc_Relationships d)" and "noRecurrence L (EPkg p)"
  shows "distinct (doc_Relationships (describePackage L p d))"
  using lowering_distinct(1)
          [of "d\<lparr>doc_DocumentDescribes := doc_DocumentDescribes d @ [ID L (EPkg p)]\<rparr>" L p]
        assms
  by (simp add: describePackage_def)

lemma distinct_describeFile:
  assumes "distinct (doc_Relationships d)" and "noRecurrence L (EFile f)"
  shows "distinct (doc_Relationships (describeFile L f d))"
  using lowering_distinct(2)
          [of "d\<lparr>doc_DocumentDescribes := doc_DocumentDescribes d @ [ID L (EFile f)]\<rparr>" L f]
        assms
  by (simp add: describeFile_def)

lemma distinct_lowerBom:
  assumes "distinct (doc_Relationships d)"
    and "list_all (\<lambda>p. noRecurrence L (EPkg p)) (bom_Packages doc)"
    and "list_all (\<lambda>f. noRecurrence L (EFile f)) (bom_Files doc)"
  shows "distinct (doc_Relationships (lowerBom L doc d))"
proof -
  have pk: "distinct (doc_Relationships d) \<Longrightarrow> list_all (\<lambda>p. noRecurrence L (EPkg p)) ps \<Longrightarrow>
            distinct (doc_Relationships (fold (describePackage L) ps d))" for ps d
    by (induction ps arbitrary: d) (simp_all add: distinct_describePackage)
  have fl: "distinct (doc_Relationships d) \<Longrightarrow> list_all (\<lambda>f. noRecurrence L (EFile f)) fs \<Longrightarrow>
            distinct (doc_Relationships (fold (describeFile L) fs d))" for fs d
    by (induction fs arbitrary: d) (simp_all add: distinct_describeFile)
  from assms show ?thesis unfolding lowerBom_def by (intro fl pk)
qed

lemma distinct_triples: "distinct (triples d) \<longleftrightarrow> distinct (doc_Relationships d)"
proof -
  have "inj (\<lambda>r :: SRelationship. (sr_Element r, sr_Type r, sr_Related r))"
    by (rule injI) simp
  then show ?thesis
    unfolding triples_def by (simp add: distinct_map inj_on_def)
qed

lemma sbomHasRelationship_triple:
  "sbomHasRelationship L d rel \<longleftrightarrow>
     (rel_Source rel, rel_Type rel, ID L (rel_Target rel)) \<in> set (triples d)"
  by (force simp: sbomHasRelationship_def list_ex_iff triples_def image_iff)

text \<open>
  Claim C6, as amended.  Let no relationship held by a package of the bill of materials,
  at any depth, have its own triple among those of the relationships held in its target.
  Then the document built has no two relationship records with the same triple of source
  id, kind and target id.  In any case a relationship whose triple is in the document
  when its turn comes is skipped: neither is its target lowered nor a record appended.
\<close>

theorem no_duplicate_relationship:
  assumes "list_all (\<lambda>p. noRecurrence L (EPkg p)) (bom_Packages doc)"
    and "list_all (\<lambda>f. noRecurrence L (EFile f)) (bom_Files doc)"
    and "buildDocumentSPDX L W spec doc = Inr built"
  shows "distinct (triples built) \<and>
         (\<forall>d rel rels.
            (rel_Source rel, rel_Type rel, ID L (rel_Target rel)) \<in> set (triples d) \<longrightarrow>
            addPackageRels L d (rel # rels) = addPackageRels L d rels \<and>
            addFileRels L d (rel # rels) = addFileRels L d rels)"
proof -
  from assms(3) obtain created where built: "built = lowerBom L doc (newDocument L spec created)"
    by (auto simp: buildDocumentSPDX_def split: sum.splits)
  have "distinct (doc_Relationships (newDocument L spec created))"
    by (simp add: newDocument_def)
  then have "distinct (doc_Relationships built)"
    unfolding built using assms(1,2) by (rule distinct_lowerBom)
  then have "distinct (triples built)" by (simp add: distinct_triples)
  moreover have "addPackageRels L d (rel # rels) = addPackageRels L d rels \<and>
                 addFileRels L d (rel # rels) = addFileRels L d rels"
    if "(rel_Source rel, rel_Type rel, ID L (rel_Target rel)) \<in> set (triples d)" for d rel rels
    using that by (cases rel) (simp add: sbomHasRelationship_triple)
  ultimately show ?thesis by blast
qed

lemma example_triples:
  "map_sum id triples
     (buildDocumentSPDX exampleLib exampleWorld exampleSpec
        (exampleBom [containsFile ''/README'', containsFile ''/README'',
                     containsFile ''/bin/hello'']))
   = Inr [(''SPDXRef-Package-hello'', ''CONTAINS'', ''SPDXRef-File-/README''),
          (''SPDXRef-Package-hello'', ''CONTAINS'', ''SPDXRef-File-/bin/hello'')]"
  by (simp add: buildDocumentSPDX_def sbomTime_def exampleWorld_def
        lowerBom_def exampleBom_def describePackage_def examplePkg_def containsFile_def
        newDocument_def sbomHasRelationship_def appendRel_def spdxRel_def spdxFile_def
        exampleLib_def exampleID_def triples_def)

text \<open>
  The package hello holding the same relationship to a file twice, and one to another
  file: the second copy is skipped, and the document has two records.
\<close>

theorem no_duplicate_relationship_witness:
  "map_sum id triples
     (buildDocumentSPDX exampleLib exampleWorld exampleSpec
        (exampleBom [containsFile ''/README'', containsFile ''/README'',
                     containsFile ''/bin/hello'']))
   = Inr [(''SPDXRef-Package-hello'', ''CONTAINS'', ''SPDXRef-File-/README''),
          (''SPDXRef-Package-hello'', ''CONTAINS'', ''SPDXRef-File-/bin/hello'')] \<and>
   (\<exists>built. buildDocumentSPDX exampleLib exampleWorld exampleSpec
        (exampleBom [containsFile ''/README'', containsFile ''/README'',
                     containsFile ''/bin/hello'']) = Inr built \<and>
            distinct (triples built))"
proof -
  let ?bom = "exampleBom [containsFile ''/README'', containsFile ''/README'',
                          containsFile ''/bin/hello'']"
  have 1: "list_all (\<lambda>p. noRecurrence exampleLib (EPkg p)) (bom_Packages ?bom)"
    by (simp add: exampleBom_def examplePkg_def containsFile_def)
  have 2: "list_all (\<lambda>f. noRecurrence exampleLib (EFile f)) (bom_Files ?bom)"
    by (simp add: exampleBom_def)
  have "environ exampleWorld = Map.empty" by (simp add: exampleWorld_def)
  from example_build [OF this] obtain built
    where 3: "buildDocumentSPDX exampleLib exampleWorld exampleSpec ?bom = Inr built"
    by blast
  from no_duplicate_relationship [OF 1 2 3] have "distinct (triples built)" by blast
  with 3 example_triples show ?thesis by blast
qed

text \<open>
  The claim as first stated fails.  A package holding a package of the same identifier,
  which in turn holds a third one: the inner relationship is lowered between the check
  of the outer one and its record, and the same triple is emitted twice.
\<close>

theorem no_duplicate_relationship_counterexample:
  "map_sum id triples
     (buildDocumentSPDX exampleLib exampleWorld exampleSpec
        (exampleBom [containsHello [containsHello []]]))
   = Inr [(''SPDXRef-Package-hello'', ''CONTAINS'', ''SPDXRef-Package-hello''),
          (''SPDXRef-Package-hello'', ''CONTAINS'', ''SPDXRef-Package-hello'')]"
  by (simp add: buildDocumentSPDX_def sbomTime_def exampleWorld_def
        lowerBom_def exampleBom_def describePackage_def examplePkg_def containsHello_def
        newDocument_def sbomHasRelationship_def appendRel_def spdxRel_def
        exampleLib_def exampleID_def triples_def)

text \<open>
  Recurrence needs two elements with one identifier: where the identifiers tell all
  elements apart, every element is free of it, since the records of the relationships
  held in an element relate elements strictly smaller than it.
\<close>

lemma held_beneath:
  "x \<in> set (heldBy L e) \<longrightarrow> (\<exists>t. sr_Related x = ID L t \<and> size t < size e)"
  "x \<in> set (heldIn L emits rels) \<longrightarrow>
     (\<exists>t. sr_Related x = ID L t \<and> size t < size_list size rels)"
proof (induction L e and L emits rels rule: heldBy_heldIn.induct)
  case (1 L fa n v rels ld lc c ns a cs)
  then show ?case by auto
next
  case (2 L n cs rels)
  then show ?case by auto
next
  case (3 L emits)
  then show ?case by simp
next
  case (4 L emits s t ty rels)
  show ?case
  proof
    assume "x \<in> set (heldIn L emits (Relationship s t ty # rels))"
    then consider "x \<in> set (heldBy L t)" | "x = spdxRel L (Relationship s t ty)"
      | "x \<in> set (heldIn L emits rels)"
      by (auto split: if_splits)
    then show "\<exists>t'. sr_Related x = ID L t' \<and> size t' < size_list size (Relationship s t ty # rels)"
    proof cases
      case 1
      with 4(1) obtain t' where "sr_Related x = ID L t'" "size t' < size t" by blast
      then show ?thesis by (intro exI [of _ t']) simp
    next
      case 2
      then show ?thesis by (intro exI [of _ t]) (simp add: spdxRel_def)
    next
      case 3
      with 4(2) obtain t' where "sr_Related x = ID L t'" "size t' < size_list size rels" by blast
      then show ?thesis by (intro exI [of _ t']) simp
    qed
  qed
qed

lemma inj_ID_noRecurrence:
  "inj (ID L) \<longrightarrow> noRecurrence L e"
  "inj (ID L) \<longrightarrow> noRecurrenceIn L emits rels"
proof (induction L e and L emits rels rule: noRecurrence_noRecurrenceIn.induct)
  case (4 L emits s t ty rels)
  show ?case
  proof
    assume inj: "inj (ID L)"
    have "spdxRel L (Relationship s t ty) \<notin> set (heldBy L t)"
    proof
      assume "spdxRel L (Relationship s t ty) \<in> set (heldBy L t)"
      with held_beneath(1) obtain t' where "sr_Related (spdxRel L (Relationship s t ty)) = ID L t'"
        and less: "size t' < size t" by blast
      then have "ID L t = ID L t'" by (simp add: spdxRel_def)
      with inj have "t = t'" by (simp add: inj_eq)
      with less show False by simp
    qed
    with 4 inj show "noRecurrenceIn L emits (Relationship s t ty # rels)" by simp
  qed
qed simp_all

section \<open>The scanned package and the invariants\<close>

text \<open>
  The package \<open>ScanFiles\<close> returns, when it was given one without relationships, is
  free of recurrence; and it names itself as the source of what it holds as soon as
  appending the relationships does not change its identifier.
\<close>

lemma sourcesAre_scanned:
  "sourcesAre L (Some source)
     (map (\<lambda>path. Relationship source (EFile (scanFile S dirPath path)) ''CONTAINS'') paths)"
  by (induction paths) (simp_all add: scanFile_def)

lemma noRecurrenceIn_scanned:
  "noRecurrenceIn L emits
     (map (\<lambda>path. Relationship source (EFile (scanFile S dirPath path)) ''CONTAINS'') paths)"
  by (induction paths) (simp_all add: scanFile_def)

lemma ScanFiles_wellformed:
  assumes "Abs S (spec_Path spec) = Some dirPath"
    and "getDirectoryTree (WalkDir S dirPath) = Inr fileList"
    and "set (completion S fileList) = set fileList"
    and "ScanFiles L S spec dirPackage = (None, scanned)"
    and "pkg_Relationships dirPackage = []"
  shows "noRecurrence L (EPkg scanned)"
    and "ID L (EPkg scanned) = ID L (EPkg (with_FilesAnalyzed True dirPackage)) \<Longrightarrow>
         ownsSources L (EPkg scanned)"
proof -
  let ?source = "ID L (EPkg (with_FilesAnalyzed True dirPackage))"
  let ?new = "map (\<lambda>path. Relationship ?source (EFile (scanFile S dirPath path)) ''CONTAINS'')
                (sorted_list_of_set (set fileList))"
  from ScanFiles_ok [OF assms(1-4)]
  have scanned: "scanned = append_Relationships ?new (with_FilesAnalyzed True dirPackage)"
    by blast
  obtain fa n v rels ld lc c ns a cs where p: "scanned = Pkg fa n v rels ld lc c ns a cs"
    by (cases scanned)
  have "pkg_Relationships scanned = ?new" using assms(5) by (simp add: scanned)
  with p have rels: "rels = ?new" by simp
  show "noRecurrence L (EPkg scanned)"
    unfolding p noRecurrence.simps rels by (rule noRecurrenceIn_scanned)
  show "ownsSources L (EPkg scanned)"
    if "ID L (EPkg scanned) = ?source"
  proof -
    from that p have "ID L (EPkg (Pkg fa n v rels ld lc c ns a cs)) = ?source" by simp
    then show ?thesis
      unfolding p ownsSources.simps rels by (simp only: sourcesAre_scanned)
  qed
qed

end
